theory Spec2Isabelle
  imports Complex_Main "HOL-Library.AList"
begin

section \<open>Python strings\<close>

text \<open>
  A Python \<open>str\<close> is a sequence of Unicode code points and \<open>len\<close> counts code points,
  so a string is a list of natural numbers.  \<open>cp\<close> reads an ASCII literal.
\<close>

type_synonym pystr = "nat list"

definition cp :: "string \<Rightarrow> pystr" where
  "cp s = map of_char s"

text \<open>
  \<open>str.strip()\<close> without argument removes leading and trailing white space, which for
  \<open>str\<close> is the set of code points accepted by \<open>str.isspace\<close>: the whole table follows.
\<close>

definition py_isspace :: "nat \<Rightarrow> bool" where
  "py_isspace c \<longleftrightarrow>
     (9 \<le> c \<and> c \<le> 13) \<or> (28 \<le> c \<and> c \<le> 32) \<or> c = 133 \<or> c = 160 \<or> c = 5760 \<or>
     (8192 \<le> c \<and> c \<le> 8202) \<or> c = 8232 \<or> c = 8233 \<or> c = 8239 \<or> c = 8287 \<or> c = 12288"

definition py_strip :: "pystr \<Rightarrow> pystr" where
  "py_strip s = rev (dropWhile py_isspace (rev (dropWhile py_isspace s)))"

text \<open>
  Case conversion reads the Unicode character database of the interpreter: whether a
  code point is cased, whether it is case-ignorable, and its full lower-case and
  title-case mappings (a mapping may be several code points long).  The database is
  not part of the repository, so it is a parameter of the model.
\<close>

record ucd =
  is_cased :: "nat \<Rightarrow> bool"
  is_case_ignorable :: "nat \<Rightarrow> bool"
  to_lower_full :: "nat \<Rightarrow> nat list"
  to_title_full :: "nat \<Rightarrow> nat list"

text \<open>
  Lower-casing one code point in its context.  Capital sigma (U+03A3, 931) becomes the
  final sigma (962) when a cased letter precedes it and none follows, case-ignorable
  code points being skipped on both sides, and the ordinary small sigma (963)
  otherwise.  \<open>left\<close> holds the code points before it, nearest first, \<open>right\<close> those after it.
\<close>

definition handle_capital_sigma :: "ucd \<Rightarrow> nat list \<Rightarrow> nat list \<Rightarrow> nat" where
  "handle_capital_sigma U left right =
     (let final_sigma =
            (case dropWhile (is_case_ignorable U) left of
               [] \<Rightarrow> False
             | c # _ \<Rightarrow> is_cased U c);
          final_sigma =
            (if final_sigma
             then (case dropWhile (is_case_ignorable U) right of
                     [] \<Rightarrow> True
                   | c # _ \<Rightarrow> \<not> is_cased U c)
             else final_sigma)
      in if final_sigma then 962 else 963)"

definition lower_ucs4 :: "ucd \<Rightarrow> nat list \<Rightarrow> nat list \<Rightarrow> nat \<Rightarrow> nat list" where
  "lower_ucs4 U left right c =
     (if c = 931 then [handle_capital_sigma U left right] else to_lower_full U c)"

fun do_lower :: "ucd \<Rightarrow> nat list \<Rightarrow> nat list \<Rightarrow> nat list" where
  "do_lower U left [] = []"
| "do_lower U left (c # cs) = lower_ucs4 U left cs c @ do_lower U (c # left) cs"

definition py_lower :: "ucd \<Rightarrow> pystr \<Rightarrow> pystr" where
  "py_lower U s = do_lower U [] s"

text \<open>
  \<open>str.title()\<close>: a code point that follows a cased one is lower-cased, any other is
  title-cased; whether the next one follows a cased code point is decided on the
  input, not on the output.
\<close>

fun do_title :: "ucd \<Rightarrow> nat list \<Rightarrow> bool \<Rightarrow> nat list \<Rightarrow> nat list" where
  "do_title U left previous_is_cased [] = []"
| "do_title U left previous_is_cased (c # cs) =
     (if previous_is_cased then lower_ucs4 U left cs c else to_title_full U c)
     @ do_title U (c # left) (is_cased U c) cs"

definition py_title :: "ucd \<Rightarrow> pystr \<Rightarrow> pystr" where
  "py_title U s = do_title U [] False s"

text \<open>
  The ASCII part of the database, and a database that holds it together with two
  further code points: U+0130 (304, capital I with dot above), which is cased, is its
  own title case and has the two code points U+0069 U+0307 as lower case, and U+0307
  (775, combining dot above), which is case-ignorable, not cased and its own lower and
  title case.  Every other code point is left uncased there.
\<close>

definition ascii_upper :: "nat \<Rightarrow> bool" where
  "ascii_upper c \<longleftrightarrow> 65 \<le> c \<and> c \<le> 90"

definition ascii_lower :: "nat \<Rightarrow> bool" where
  "ascii_lower c \<longleftrightarrow> 97 \<le> c \<and> c \<le> 122"

definition ascii_tolower :: "nat \<Rightarrow> nat" where
  "ascii_tolower c = (if ascii_upper c then c + 32 else c)"

definition ascii_toupper :: "nat \<Rightarrow> nat" where
  "ascii_toupper c = (if ascii_lower c then c - 32 else c)"

definition ucd_fragment :: ucd where
  "ucd_fragment =
     \<lparr> is_cased = (\<lambda>c. ascii_upper c \<or> ascii_lower c \<or> c = 304),
       is_case_ignorable = (\<lambda>c. c = 39 \<or> c = 46 \<or> c = 58 \<or> c = 94 \<or> c = 96 \<or> c = 775),
       to_lower_full = (\<lambda>c. if c = 304 then [105, 775] else [ascii_tolower c]),
       to_title_full = (\<lambda>c. [ascii_toupper c]) \<rparr>"

text \<open>A database agrees with Unicode on ASCII when it has the ASCII tables below 128.\<close>

definition ascii_exact :: "ucd \<Rightarrow> bool" where
  "ascii_exact U \<longleftrightarrow>
     list_all (\<lambda>c. is_cased U c = (ascii_upper c \<or> ascii_lower c)
                 \<and> to_lower_full U c = [ascii_tolower c]
                 \<and> to_title_full U c = [ascii_toupper c]) [0..<128]"

section \<open>Python floats\<close>

text \<open>
  A float is a finite binary fraction, an infinity or NaN.  The finite values are
  kept as the rationals they denote; every comparison with NaN is false.
\<close>

datatype pyfloat = Finite rat | PosInf | NegInf | NaN

fun float_le :: "pyfloat \<Rightarrow> pyfloat \<Rightarrow> bool" where
  "float_le NaN _ = False"
| "float_le _ NaN = False"
| "float_le NegInf _ = True"
| "float_le _ PosInf = True"
| "float_le (Finite a) (Finite b) = (a \<le> b)"
| "float_le _ _ = False"

fun float_lt :: "pyfloat \<Rightarrow> pyfloat \<Rightarrow> bool" where
  "float_lt NaN _ = False"
| "float_lt _ NaN = False"
| "float_lt (Finite a) (Finite b) = (a < b)"
| "float_lt NegInf NegInf = False"
| "float_lt NegInf _ = True"
| "float_lt PosInf _ = False"
| "float_lt (Finite a) PosInf = True"
| "float_lt (Finite a) NegInf = False"

definition float_gt :: "pyfloat \<Rightarrow> pyfloat \<Rightarrow> bool" where
  "float_gt a b = float_lt b a"

text \<open>
  The finite floats are the binary fractions \<open>m * 2 ^ e\<close> with a significand \<open>m\<close> of
  at most 53 bits and an exponent \<open>e\<close> from \<open>-1074\<close> to \<open>971\<close>.
\<close>

definition is_float :: "rat \<Rightarrow> bool" where
  "is_float x \<longleftrightarrow>
     (\<exists>m e. \<bar>m\<bar> < 2 ^ 53 \<and> - 1074 \<le> e \<and> e \<le> 971 \<and> x = of_int m * 2 powi e)"

text \<open>Rounding to an integer, an exact tie going to the even one.\<close>

definition round_half_even :: "rat \<Rightarrow> int" where
  "round_half_even x =
     (let f = \<lfloor>x\<rfloor>; d = x - of_int f
      in if d < 1 / 2 then f else if 1 / 2 < d then f + 1 else if even f then f else f + 1)"

text \<open>
  Conversion of an exact value to the nearest float, a tie going to the even
  significand.  \<open>float_exponent x\<close> is the exponent of the floats around \<open>x\<close>: the least
  \<open>e\<close> from \<open>-1074\<close> on with \<open>\<bar>x\<bar> < 2 ^ (e + 53)\<close>, and \<open>971\<close> if there is none.  A value
  that rounds beyond the largest float becomes an infinity.
\<close>

fun binade :: "nat \<Rightarrow> int \<Rightarrow> rat \<Rightarrow> int" where
  "binade 0 e x = e"
| "binade (Suc n) e x = (if \<bar>x\<bar> < 2 powi (e + 53) then e else binade n (e + 1) x)"

definition float_exponent :: "rat \<Rightarrow> int" where
  "float_exponent x = binade 2045 (- 1074) x"

definition nearest_float :: "rat \<Rightarrow> pyfloat" where
  "nearest_float x =
     (let e = float_exponent x;
          r = of_int (round_half_even (x / 2 powi e)) * 2 powi e
      in if 2 powi 1024 \<le> r then PosInf
         else if r \<le> - (2 powi 1024) then NegInf
         else Finite r)"

text \<open>
  \<open>round(v, ndigits)\<close> on a float takes the exact value of \<open>v\<close> to the nearest multiple
  of \<open>10 ^ -ndigits\<close>, an exact tie going to the even multiple, and returns the float
  nearest to that decimal.  An infinity and NaN are returned as they are.
\<close>

fun py_round :: "pyfloat \<Rightarrow> nat \<Rightarrow> pyfloat" where
  "py_round (Finite q) ndigits =
     nearest_float (of_int (round_half_even (q * 10 ^ ndigits)) / 10 ^ ndigits)"
| "py_round v ndigits = v"

section \<open>Validation errors\<close>

text \<open>
  The error kinds of the specification.  A string shorter than \<open>min_length\<close> and a
  name that is blank are \<open>EmptyField\<close>, as is a list shorter than \<open>min_items\<close>; a string
  longer than \<open>max_length\<close> is \<open>TooLong\<close>; a number outside its bounds is \<open>OutOfRange\<close>; a
  list longer than \<open>max_items\<close> is \<open>TooMany\<close>; a repeated category is
  \<open>DuplicateCategory\<close>; the 404 response is \<open>NotFound\<close>.
\<close>

datatype error = EmptyField | TooLong | OutOfRange | TooMany | DuplicateCategory | NotFound

text \<open>Declared constraints of a field: they are checked before the field's validator.\<close>

definition constr_length :: "nat \<Rightarrow> nat \<Rightarrow> pystr \<Rightarrow> error + pystr" where
  "constr_length min_length max_length v =
     (if length v < min_length then Inl EmptyField
      else if max_length < length v then Inl TooLong
      else Inr v)"

definition confloat_gt_le :: "pyfloat \<Rightarrow> pyfloat \<Rightarrow> pyfloat \<Rightarrow> error + pyfloat" where
  "confloat_gt_le gt le v =
     (if \<not> float_gt v gt then Inl OutOfRange
      else if \<not> float_le v le then Inl OutOfRange
      else Inr v)"

definition conint_ge_le :: "int \<Rightarrow> int \<Rightarrow> int \<Rightarrow> error + int" where
  "conint_ge_le ge le v =
     (if \<not> ge \<le> v then Inl OutOfRange
      else if \<not> v \<le> le then Inl OutOfRange
      else Inr v)"

definition conlist_length :: "nat \<Rightarrow> nat \<Rightarrow> 'a list \<Rightarrow> error + 'a list" where
  "conlist_length min_items max_items v =
     (if length v < min_items then Inl EmptyField
      else if max_items < length v then Inl TooMany
      else Inr v)"

text \<open>Running a field's validator on the value its constraints let through.\<close>

definition and_then :: "error + 'a \<Rightarrow> ('a \<Rightarrow> error + 'b) \<Rightarrow> error + 'b" where
  "and_then r f = (case r of Inl e \<Rightarrow> Inl e | Inr v \<Rightarrow> f v)"

text \<open>The errors of a field, for the list a failed model validation reports.\<close>

definition errors_of :: "error + 'a \<Rightarrow> error list" where
  "errors_of r = (case r of Inl e \<Rightarrow> [e] | Inr _ \<Rightarrow> [])"

section \<open>The models\<close>

record Categoria =
  c_nombre :: pystr
  c_descripcion :: "pystr option"

definition validar_nombre_categoria :: "ucd \<Rightarrow> pystr \<Rightarrow> error + pystr" where
  "validar_nombre_categoria U v =
     (if py_strip v = [] then Inl EmptyField
      else Inr (py_title U (py_strip v)))"

definition Categoria_nombre :: "ucd \<Rightarrow> pystr \<Rightarrow> error + pystr" where
  "Categoria_nombre U v = and_then (constr_length 1 50 v) (validar_nombre_categoria U)"

definition Categoria_descripcion :: "pystr option \<Rightarrow> error + pystr option" where
  "Categoria_descripcion v =
     (case v of
        None \<Rightarrow> Inr None
      | Some d \<Rightarrow> (if 200 < length d then Inl TooLong else Inr (Some d)))"

text \<open>\<open>Categoria(nombre=..., descripcion=...)\<close>: every field is validated, all errors are reported.\<close>

definition Categoria_validate :: "ucd \<Rightarrow> Categoria \<Rightarrow> error list + Categoria" where
  "Categoria_validate U raw =
     (let n = Categoria_nombre U (c_nombre raw);
          d = Categoria_descripcion (c_descripcion raw)
      in case (n, d) of
           (Inr n', Inr d') \<Rightarrow> Inr \<lparr> c_nombre = n', c_descripcion = d' \<rparr>
         | _ \<Rightarrow> Inl (errors_of n @ errors_of d))"

type_synonym datetime = int

record Producto =
  p_id :: "pystr option"
  p_nombre :: pystr
  p_precio :: pyfloat
  p_categorias :: "Categoria list"
  p_stock :: int
  p_fecha_creacion :: "datetime option"

definition validar_nombre_producto :: "ucd \<Rightarrow> pystr \<Rightarrow> error + pystr" where
  "validar_nombre_producto U v =
     (if py_strip v = [] then Inl EmptyField
      else Inr (py_title U (py_strip v)))"

definition validar_precio :: "pyfloat \<Rightarrow> error + pyfloat" where
  "validar_precio v =
     (if float_le v (Finite 0) then Inl OutOfRange
      else if float_gt v (Finite 10000) then Inl OutOfRange
      else Inr (py_round v 2))"

definition validar_stock :: "int \<Rightarrow> error + int" where
  "validar_stock v =
     (if v < 0 then Inl OutOfRange
      else if 10000 < v then Inl OutOfRange
      else Inr v)"

definition validar_categorias :: "ucd \<Rightarrow> Categoria list \<Rightarrow> error + Categoria list" where
  "validar_categorias U v =
     (if v = [] then Inl EmptyField
      else if 10 < length v then Inl TooMany
      else (let nombres = map (\<lambda>cat. py_lower U (c_nombre cat)) v
            in if length nombres \<noteq> card (set nombres) then Inl DuplicateCategory
               else Inr v))"

definition Producto_nombre :: "ucd \<Rightarrow> pystr \<Rightarrow> error + pystr" where
  "Producto_nombre U v = and_then (constr_length 1 100 v) (validar_nombre_producto U)"

definition Producto_precio :: "pyfloat \<Rightarrow> error + pyfloat" where
  "Producto_precio v = and_then (confloat_gt_le (Finite 0) (Finite 10000) v) validar_precio"

text \<open>The items handed to \<open>Producto\<close> are \<open>Categoria\<close> instances: they are taken as they are.\<close>

definition Producto_categorias :: "ucd \<Rightarrow> Categoria list \<Rightarrow> error + Categoria list" where
  "Producto_categorias U v = and_then (conlist_length 1 10 v) (validar_categorias U)"

definition Producto_stock :: "int \<Rightarrow> error + int" where
  "Producto_stock v = and_then (conint_ge_le 0 10000 v) validar_stock"

text \<open>\<open>Producto(id=..., nombre=..., precio=..., categorias=..., stock=..., fecha_creacion=...)\<close>.\<close>

definition Producto_validate ::
  "ucd \<Rightarrow> pystr option \<Rightarrow> pystr \<Rightarrow> pyfloat \<Rightarrow> Categoria list \<Rightarrow> int \<Rightarrow> datetime option
     \<Rightarrow> error list + Producto" where
  "Producto_validate U ident nombre precio categorias stock fecha_creacion =
     (let n = Producto_nombre U nombre;
          p = Producto_precio precio;
          c = Producto_categorias U categorias;
          s = Producto_stock stock
      in case (n, p, c, s) of
           (Inr n', Inr p', Inr c', Inr s') \<Rightarrow>
             Inr \<lparr> p_id = ident, p_nombre = n', p_precio = p', p_categorias = c',
                   p_stock = s', p_fecha_creacion = fecha_creacion \<rparr>
         | _ \<Rightarrow> Inl (errors_of n @ errors_of p @ errors_of c @ errors_of s))"

record ProductoCreate =
  pc_nombre :: pystr
  pc_precio :: pyfloat
  pc_categorias :: "Categoria list"
  pc_stock :: int

text \<open>
  The items of a request body are validated one by one as \<open>Categoria\<close>, after the
  length of the list; the errors of all items are reported.
\<close>

fun validate_items :: "ucd \<Rightarrow> Categoria list \<Rightarrow> error list + Categoria list" where
  "validate_items U [] = Inr []"
| "validate_items U (raw # raws) =
     (case (Categoria_validate U raw, validate_items U raws) of
        (Inr c, Inr cs) \<Rightarrow> Inr (c # cs)
      | (Inl es, Inr cs) \<Rightarrow> Inl es
      | (Inr c, Inl es') \<Rightarrow> Inl es'
      | (Inl es, Inl es') \<Rightarrow> Inl (es @ es'))"

definition ProductoCreate_categorias :: "ucd \<Rightarrow> Categoria list \<Rightarrow> error list + Categoria list" where
  "ProductoCreate_categorias U v =
     (case conlist_length 1 10 v of
        Inl e \<Rightarrow> Inl [e]
      | Inr v' \<Rightarrow> validate_items U v')"

definition errors_list_of :: "error list + 'a \<Rightarrow> error list" where
  "errors_list_of r = (case r of Inl es \<Rightarrow> es | Inr _ \<Rightarrow> [])"

text \<open>\<open>ProductoCreate\<close> declares the constraints of \<open>Producto\<close> and none of its validators.\<close>

definition ProductoCreate_validate :: "ucd \<Rightarrow> ProductoCreate \<Rightarrow> error list + ProductoCreate" where
  "ProductoCreate_validate U raw =
     (let n = constr_length 1 100 (pc_nombre raw);
          p = confloat_gt_le (Finite 0) (Finite 10000) (pc_precio raw);
          c = ProductoCreate_categorias U (pc_categorias raw);
          s = conint_ge_le 0 10000 (pc_stock raw)
      in case (n, p, c, s) of
           (Inr n', Inr p', Inr c', Inr s') \<Rightarrow>
             Inr \<lparr> pc_nombre = n', pc_precio = p', pc_categorias = c', pc_stock = s' \<rparr>
         | _ \<Rightarrow> Inl (errors_of n @ errors_of p @ errors_list_of c @ errors_of s))"

section \<open>The store and the request handlers\<close>

text \<open>
  \<open>productos_db\<close> is a dictionary that keeps insertion order: a list of pairs, in which
  assigning to a present key replaces its value in place and assigning to an absent
  key appends.  Each handler takes the store and returns the store it leaves together
  with its response; an exception leaves through \<open>Inl\<close>.  The identifier drawn by
  \<open>uuid.uuid4()\<close> and the time read by \<open>datetime.now()\<close> are arguments.
\<close>

type_synonym productos_db = "(pystr \<times> Producto) list"

definition dict_contains :: "productos_db \<Rightarrow> pystr \<Rightarrow> bool" where
  "dict_contains db k \<longleftrightarrow> map_of db k \<noteq> None"

definition dict_values :: "productos_db \<Rightarrow> Producto list" where
  "dict_values db = map snd db"

definition crear_producto ::
  "ucd \<Rightarrow> productos_db \<Rightarrow> pystr \<Rightarrow> datetime \<Rightarrow> ProductoCreate
     \<Rightarrow> productos_db \<times> (error list + Producto)" where
  "crear_producto U db producto_id now producto =
     (case Producto_validate U (Some producto_id) (pc_nombre producto) (pc_precio producto)
             (pc_categorias producto) (pc_stock producto) (Some now) of
        Inl es \<Rightarrow> (db, Inl es)
      | Inr producto_completo \<Rightarrow>
          (AList.update producto_id producto_completo db, Inr producto_completo))"

definition obtener_productos :: "productos_db \<Rightarrow> Producto list" where
  "obtener_productos db = dict_values db"

definition obtener_producto :: "productos_db \<Rightarrow> pystr \<Rightarrow> error list + Producto" where
  "obtener_producto db producto_id =
     (if \<not> dict_contains db producto_id then Inl [NotFound]
      else (case map_of db producto_id of
              Some p \<Rightarrow> Inr p
            | None \<Rightarrow> Inl [NotFound]))"

definition actualizar_producto ::
  "ucd \<Rightarrow> productos_db \<Rightarrow> pystr \<Rightarrow> ProductoCreate \<Rightarrow> productos_db \<times> (error list + Producto)" where
  "actualizar_producto U db producto_id producto =
     (case map_of db producto_id of
        None \<Rightarrow> (db, Inl [NotFound])
      | Some almacenado \<Rightarrow>
          (case Producto_validate U (Some producto_id) (pc_nombre producto) (pc_precio producto)
                  (pc_categorias producto) (pc_stock producto) (p_fecha_creacion almacenado) of
             Inl es \<Rightarrow> (db, Inl es)
           | Inr producto_actualizado \<Rightarrow>
               (AList.update producto_id producto_actualizado db, Inr producto_actualizado)))"

definition eliminar_producto :: "productos_db \<Rightarrow> pystr \<Rightarrow> productos_db \<times> (error list + unit)" where
  "eliminar_producto db producto_id =
     (if \<not> dict_contains db producto_id then (db, Inl [NotFound])
      else (AList.delete producto_id db, Inr ()))"

text \<open>The inner loop of the filter, left at the first matching category.\<close>

fun alguna_categoria :: "ucd \<Rightarrow> pystr \<Rightarrow> Categoria list \<Rightarrow> bool" where
  "alguna_categoria U nombre_categoria [] = False"
| "alguna_categoria U nombre_categoria (categoria # resto) =
     (if py_lower U (c_nombre categoria) = py_lower U nombre_categoria then True
      else alguna_categoria U nombre_categoria resto)"

text \<open>The outer loop, over the values of the store, appending to \<open>productos_filtrados\<close>.\<close>

fun filtrar :: "ucd \<Rightarrow> pystr \<Rightarrow> Producto list \<Rightarrow> Producto list \<Rightarrow> Producto list" where
  "filtrar U nombre_categoria [] productos_filtrados = productos_filtrados"
| "filtrar U nombre_categoria (producto # resto) productos_filtrados =
     filtrar U nombre_categoria resto
       (if alguna_categoria U nombre_categoria (p_categorias producto)
        then productos_filtrados @ [producto] else productos_filtrados)"

definition obtener_productos_por_categoria :: "ucd \<Rightarrow> productos_db \<Rightarrow> pystr \<Rightarrow> Producto list" where
  "obtener_productos_por_categoria U db nombre_categoria =
     filtrar U nombre_categoria (dict_values db) []"

text \<open>
  The routes: the body of a POST or PUT is validated as \<open>ProductoCreate\<close> before the
  handler is called, and a body that fails is answered without calling it.
\<close>

definition post_productos ::
  "ucd \<Rightarrow> productos_db \<Rightarrow> pystr \<Rightarrow> datetime \<Rightarrow> ProductoCreate
     \<Rightarrow> productos_db \<times> (error list + Producto)" where
  "post_productos U db producto_id now body =
     (case ProductoCreate_validate U body of
        Inl es \<Rightarrow> (db, Inl es)
      | Inr producto \<Rightarrow> crear_producto U db producto_id now producto)"

definition put_productos ::
  "ucd \<Rightarrow> productos_db \<Rightarrow> pystr \<Rightarrow> ProductoCreate \<Rightarrow> productos_db \<times> (error list + Producto)" where
  "put_productos U db producto_id body =
     (case ProductoCreate_validate U body of
        Inl es \<Rightarrow> (db, Inl es)
      | Inr producto \<Rightarrow> actualizar_producto U db producto_id producto)"

text \<open>Requests that change the store, and the store after a sequence of them.\<close>

datatype request =
    Post pystr datetime ProductoCreate
  | Put pystr ProductoCreate
  | Delete pystr

fun handle :: "ucd \<Rightarrow> productos_db \<Rightarrow> request \<Rightarrow> productos_db" where
  "handle U db (Post producto_id now body) = fst (post_productos U db producto_id now body)"
| "handle U db (Put producto_id body) = fst (put_productos U db producto_id body)"
| "handle U db (Delete producto_id) = fst (eliminar_producto db producto_id)"

definition serve :: "ucd \<Rightarrow> productos_db \<Rightarrow> request list \<Rightarrow> productos_db" where
  "serve U db rs = foldl (handle U) db rs"

section \<open>Reference notions and sample data\<close>

text \<open>
  Following the specification: \<open>d\<close> is \<open>p\<close> rounded to two decimal places when \<open>d\<close> is a
  multiple of one hundredth at distance at most half a hundredth from \<open>p\<close>, the even
  multiple where two are equally near; and \<open>r\<close> is the float of \<open>d\<close> when \<open>r\<close> is a float
  and no float is nearer to \<open>d\<close>.
\<close>

definition spec_rounded_2dp :: "rat \<Rightarrow> rat \<Rightarrow> bool" where
  "spec_rounded_2dp p d \<longleftrightarrow>
     (\<exists>k::int. d = of_int k / 100 \<and> \<bar>d - p\<bar> \<le> 1 / 200 \<and> (\<bar>d - p\<bar> = 1 / 200 \<longrightarrow> even k))"

definition spec_nearest_float :: "rat \<Rightarrow> rat \<Rightarrow> bool" where
  "spec_nearest_float d r \<longleftrightarrow> is_float r \<and> (\<forall>y. is_float y \<longrightarrow> \<bar>r - d\<bar> \<le> \<bar>y - d\<bar>)"

text \<open>A request body whose price is positive and below half a hundredth.\<close>

definition manzana :: ProductoCreate where
  "manzana = \<lparr> pc_nombre = cp ''Manzana Roja'', pc_precio = Finite (1 / 256),
       pc_categorias = [\<lparr> c_nombre = cp ''Frutas'', c_descripcion = None \<rparr>], pc_stock = 100 \<rparr>"

text \<open>A category whose description has white space at both ends.\<close>

definition frutas_raw :: Categoria where
  "frutas_raw = \<lparr> c_nombre = cp ''frutas'', c_descripcion = Some (cp ''  Productos frescos  '') \<rparr>"

text \<open>Sample products, request bodies and stores.\<close>

definition frutas :: Categoria where
  "frutas = \<lparr> c_nombre = cp ''Frutas'', c_descripcion = None \<rparr>"

definition frutas_secas :: Categoria where
  "frutas_secas = \<lparr> c_nombre = cp ''Frutas Secas'', c_descripcion = None \<rparr>"

definition manzana_roja :: Producto where
  "manzana_roja =
     \<lparr> p_id = Some (cp ''id1''), p_nombre = cp ''Manzana Roja'', p_precio = Finite (51 / 2),
       p_categorias = [frutas], p_stock = 100, p_fecha_creacion = Some 7 \<rparr>"

definition nuez :: Producto where
  "nuez =
     \<lparr> p_id = Some (cp ''id2''), p_nombre = cp ''Nuez'', p_precio = Finite 80,
       p_categorias = [frutas_secas], p_stock = 20, p_fecha_creacion = Some 9 \<rparr>"

definition db_uno :: productos_db where
  "db_uno = [(cp ''id1'', manzana_roja)]"

definition db_dos :: productos_db where
  "db_dos = [(cp ''id1'', manzana_roja), (cp ''id2'', nuez)]"

definition manzana_verde :: ProductoCreate where
  "manzana_verde =
     \<lparr> pc_nombre = cp ''manzana verde'', pc_precio = Finite 30, pc_categorias = [frutas],
       pc_stock = 50 \<rparr>"

definition sin_nombre :: ProductoCreate where
  "sin_nombre =
     \<lparr> pc_nombre = cp ''   '', pc_precio = Finite 30, pc_categorias = [frutas], pc_stock = 50 \<rparr>"

text \<open>A request creates \<open>producto_id\<close> when it is a POST that draws that identifier.\<close>

definition crea :: "pystr \<Rightarrow> request \<Rightarrow> bool" where
  "crea producto_id r = (case r of Post k _ _ \<Rightarrow> k = producto_id | _ \<Rightarrow> False)"

text \<open>A string is trimmed when it has no white space at either end.\<close>

definition trimmed :: "pystr \<Rightarrow> bool" where
  "trimmed t \<longleftrightarrow> t = [] \<or> (\<not> py_isspace (hd t) \<and> \<not> py_isspace (last t))"




text \<open>The bounds that do hold of a stored product: the price may be \<open>0\<close>.\<close>

definition en_rango :: "Producto \<Rightarrow> bool" where
  "en_rango p \<longleftrightarrow>
     (case p_precio p of Finite q \<Rightarrow> 0 \<le> q \<and> q \<le> 10000 | _ \<Rightarrow> False)
     \<and> 0 \<le> p_stock p \<and> p_stock p \<le> 10000"

text \<open>
  A code point has single, stable case mappings when it is not the capital sigma, its
  lower case is one code point \<open>l\<close> and its title case one code point \<open>t\<close>, \<open>l\<close> is its
  own lower case and \<open>t\<close> its own title case, both are cased exactly when the code point
  is, and both are white space exactly when it is.  Its case folds when moreover the
  lower case of \<open>t\<close> is \<open>l\<close>.
\<close>

definition stable_case :: "ucd \<Rightarrow> nat \<Rightarrow> bool" where
  "stable_case U c \<longleftrightarrow>
     c \<noteq> 931 \<and>
     (case (to_lower_full U c, to_title_full U c) of
        ([l], [t]) \<Rightarrow>
          l \<noteq> 931 \<and> to_lower_full U l = [l] \<and> to_title_full U t = [t]
          \<and> is_cased U l = is_cased U c \<and> is_cased U t = is_cased U c
          \<and> py_isspace l = py_isspace c \<and> py_isspace t = py_isspace c
      | _ \<Rightarrow> False)"

definition folds_case :: "ucd \<Rightarrow> nat \<Rightarrow> bool" where
  "folds_case U c \<longleftrightarrow>
     stable_case U c \<and>
     (case (to_lower_full U c, to_title_full U c) of
        ([l], [t]) \<Rightarrow> t \<noteq> 931 \<and> to_lower_full U t = [l]
      | _ \<Rightarrow> False)"

text \<open>\<open>str.title()\<close> where every mapping is a single code point.\<close>

fun single_title :: "ucd \<Rightarrow> bool \<Rightarrow> nat list \<Rightarrow> nat list" where
  "single_title U previous_is_cased [] = []"
| "single_title U previous_is_cased (c # cs) =
     hd (if previous_is_cased then to_lower_full U c else to_title_full U c)
     # single_title U (is_cased U c) cs"









section \<open>Auxiliary facts\<close>

text \<open>Unfolding the model on concrete input.\<close>

lemmas str_eval = cp_def py_strip_def py_isspace_def py_title_def py_lower_def lower_ucs4_def
  ucd_fragment_def ascii_toupper_def ascii_tolower_def ascii_upper_def ascii_lower_def

lemmas model_eval = constr_length_def confloat_gt_le_def conint_ge_le_def conlist_length_def
  and_then_def errors_of_def errors_list_of_def
  validar_nombre_categoria_def Categoria_nombre_def Categoria_descripcion_def Categoria_validate_def
  validar_nombre_producto_def validar_precio_def validar_stock_def validar_categorias_def
  Producto_nombre_def Producto_precio_def Producto_categorias_def Producto_stock_def
  Producto_validate_def ProductoCreate_categorias_def ProductoCreate_validate_def
  float_gt_def round_half_even_def Let_def

lemmas store_eval = dict_contains_def dict_values_def crear_producto_def obtener_productos_def
  obtener_producto_def actualizar_producto_def eliminar_producto_def
  obtener_productos_por_categoria_def post_productos_def put_productos_def serve_def

lemma and_then_Inr_iff: "and_then r f = Inr y \<longleftrightarrow> (\<exists>v. r = Inr v \<and> f v = Inr y)"
  by (cases r) (simp_all add: and_then_def)

lemma and_then_Inl_iff: "and_then r f = Inl e \<longleftrightarrow> r = Inl e \<or> (\<exists>v. r = Inr v \<and> f v = Inl e)"
  by (cases r) (simp_all add: and_then_def)

lemma round_half_even_close: "\<bar>of_int (round_half_even x) - x\<bar> \<le> 1 / 2"
proof -
  have "of_int \<lfloor>x\<rfloor> \<le> x" "x < of_int \<lfloor>x\<rfloor> + 1" by linarith+
  then show ?thesis
    by (auto simp: round_half_even_def Let_def)
qed

lemma round_half_even_tie:
  assumes "\<bar>of_int (round_half_even x) - x\<bar> = 1 / 2"
  shows "even (round_half_even x)"
proof -
  have fl: "of_int \<lfloor>x\<rfloor> \<le> x" "x < of_int \<lfloor>x\<rfloor> + 1" by linarith+
  show ?thesis
  proof (cases "x - of_int \<lfloor>x\<rfloor> = 1 / 2")
    case True
    then show ?thesis by (simp add: round_half_even_def Let_def)
  next
    case False
    with assms fl show ?thesis
      by (auto simp: round_half_even_def Let_def split: if_splits)
  qed
qed

lemma validar_precio_Finite:
  "validar_precio (Finite q) =
     (if 0 < q \<and> q \<le> 10000 then Inr (py_round (Finite q) 2) else Inl OutOfRange)"
  by (auto simp: validar_precio_def float_gt_def)

lemma Producto_precio_Finite:
  "Producto_precio (Finite q) =
     (if 0 < q \<and> q \<le> 10000 then Inr (py_round (Finite q) 2) else Inl OutOfRange)"
  by (auto simp: Producto_precio_def and_then_def confloat_gt_le_def float_gt_def validar_precio_Finite)

lemma Producto_precio_not_finite:
  "Producto_precio PosInf = Inl OutOfRange" "Producto_precio NegInf = Inl OutOfRange"
  "Producto_precio NaN = Inl OutOfRange"
  by (simp_all add: Producto_precio_def and_then_def confloat_gt_le_def float_gt_def)

lemma py_round_2_close:
  "\<bar>of_int (round_half_even (q * 100)) / 100 - q\<bar> \<le> 1 / 200"
proof -
  have "\<bar>of_int (round_half_even (q * 100)) - q * 100\<bar> \<le> 1 / 2"
    by (rule round_half_even_close)
  then show ?thesis by (simp add: abs_le_iff field_simps)
qed

lemma py_round_2_tie:
  assumes "\<bar>of_int (round_half_even (q * 100)) / 100 - q\<bar> = 1 / 200"
  shows "even (round_half_even (q * 100))"
proof -
  have "\<bar>of_int (round_half_even (q * 100)) - q * 100\<bar> = 100 * \<bar>of_int (round_half_even (q * 100)) / 100 - q\<bar>"
    by (simp add: abs_mult[symmetric] field_simps)
  with assms have "\<bar>of_int (round_half_even (q * 100)) - q * 100\<bar> = 1 / 2" by simp
  then show ?thesis by (rule round_half_even_tie)
qed

lemma Producto_validate_Inr_iff:
  "Producto_validate U i n pr cs st ts = Inr p \<longleftrightarrow>
     (\<exists>n' pr' cs' st'. Producto_nombre U n = Inr n' \<and> Producto_precio pr = Inr pr' \<and>
        Producto_categorias U cs = Inr cs' \<and> Producto_stock st = Inr st' \<and>
        p = \<lparr> p_id = i, p_nombre = n', p_precio = pr', p_categorias = cs',
              p_stock = st', p_fecha_creacion = ts \<rparr>)"
  by (auto simp: Producto_validate_def Let_def split: sum.splits)

lemma Producto_validate_Inl_iff:
  "Producto_validate U i n pr cs st ts = Inl es \<longleftrightarrow>
     es = errors_of (Producto_nombre U n) @ errors_of (Producto_precio pr) @
          errors_of (Producto_categorias U cs) @ errors_of (Producto_stock st) \<and> es \<noteq> []"
  by (auto simp: Producto_validate_def Let_def errors_of_def split: sum.splits)

lemma py_round_2_spec: "spec_rounded_2dp q (of_int (round_half_even (q * 100)) / 100)"
  unfolding spec_rounded_2dp_def
  using py_round_2_close[of q] py_round_2_tie[of q] by blast

lemma spec_rounded_2dp_unique:
  assumes "spec_rounded_2dp q r" "spec_rounded_2dp q r'"
  shows "r = r'"
proof -
  from assms obtain k k' :: int where
    k: "r = of_int k / 100" "\<bar>r - q\<bar> \<le> 1 / 200" "\<bar>r - q\<bar> = 1 / 200 \<longrightarrow> even k" and
    k': "r' = of_int k' / 100" "\<bar>r' - q\<bar> \<le> 1 / 200" "\<bar>r' - q\<bar> = 1 / 200 \<longrightarrow> even k'"
    unfolding spec_rounded_2dp_def by blast
  have "\<bar>r - r'\<bar> \<le> 1 / 100" using k(2) k'(2) by linarith
  then have "\<bar>(of_int k :: rat) - of_int k'\<bar> \<le> 1" unfolding k(1) k'(1)
    by (simp add: abs_le_iff field_simps)
  then have "\<bar>(of_int (k - k') :: rat)\<bar> \<le> of_int 1" by simp
  then have d: "\<bar>k - k'\<bar> \<le> 1" unfolding of_int_abs[symmetric] of_int_le_iff .
  show ?thesis
  proof (cases "k = k'")
    case True
    then show ?thesis by (simp add: k(1) k'(1))
  next
    case False
    with d have kk: "k = k' + 1 \<or> k' = k + 1" by linarith
    then have "\<bar>r - r'\<bar> = 1 / 100" unfolding k(1) k'(1) by (auto simp: field_simps)
    with k(2) k'(2) have "\<bar>r - q\<bar> = 1 / 200" "\<bar>r' - q\<bar> = 1 / 200" by linarith+
    with k(3) k'(3) have "even k" "even k'" by simp_all
    with kk show ?thesis by auto
  qed
qed

lemma floor_ej: "\<lfloor>25 / 64 :: rat\<rfloor> = 0"
  by code_simp

lemma py_strip_Nil [simp]: "py_strip [] = []"
  by (simp add: py_strip_def)

lemma title_ej: "py_title ucd_fragment (py_strip (cp ''   manzana roja   '')) = cp ''Manzana Roja''"
  by (simp add: str_eval)

lemma strip_ej: "py_strip (cp ''   manzana roja   '') = cp ''manzana roja''"
  by (simp add: str_eval)

lemma py_strip_replicate_space: "py_strip (replicate n 32) = []"
  by (simp add: py_strip_def py_isspace_def)

lemma Categoria_validate_Inr_iff:
  "Categoria_validate U raw = Inr c \<longleftrightarrow>
     (\<exists>n' d'. Categoria_nombre U (c_nombre raw) = Inr n' \<and>
        Categoria_descripcion (c_descripcion raw) = Inr d' \<and>
        c = \<lparr> c_nombre = n', c_descripcion = d' \<rparr>)"
  by (auto simp: Categoria_validate_def Let_def split: sum.splits)

lemma Categoria_descripcion_Inr: "Categoria_descripcion d = Inr d' \<Longrightarrow> d' = d"
  by (auto simp: Categoria_descripcion_def split: option.splits if_splits)

lemma frutas_ej:
  "Categoria_validate ucd_fragment frutas_raw =
     Inr \<lparr> c_nombre = cp ''Frutas'', c_descripcion = Some (cp ''  Productos frescos  '') \<rparr>"
  by (simp add: frutas_raw_def model_eval str_eval)

lemma Producto_nombre_conv:
  "Producto_nombre U v =
     (if 100 < length v then Inl TooLong
      else if py_strip v = [] then Inl EmptyField
      else Inr (py_title U (py_strip v)))"
  by (cases v)
     (simp_all add: Producto_nombre_def constr_length_def and_then_def validar_nombre_producto_def)

lemma Categoria_nombre_conv:
  "Categoria_nombre U v =
     (if 50 < length v then Inl TooLong
      else if py_strip v = [] then Inl EmptyField
      else Inr (py_title U (py_strip v)))"
  by (cases v)
     (simp_all add: Categoria_nombre_def constr_length_def and_then_def validar_nombre_categoria_def)

section \<open>Floats\<close>

text \<open>
  The conversion returns a float than which none is nearer, for every value from 0 up
  to the range of the floats; a float is converted to itself.
\<close>

lemma binade_facts:
  "e \<le> binade n e x \<and> binade n e x \<le> e + int n
   \<and> (binade n e x = e + int n \<or> \<bar>x\<bar> < 2 powi (binade n e x + 53))
   \<and> (binade n e x = e \<or> 2 powi (binade n e x + 52) \<le> \<bar>x\<bar>)"
proof (induction n arbitrary: e)
  case 0
  then show ?case by simp
next
  case (Suc n)
  show ?case
  proof (cases "\<bar>x\<bar> < 2 powi (e + 53)")
    case True
    then show ?thesis by simp
  next
    case False
    define r where "r = binade n (e + 1) x"
    from Suc [of "e + 1"] have ih: "e + 1 \<le> r" "r \<le> e + 1 + int n"
        "r = e + 1 + int n \<or> \<bar>x\<bar> < 2 powi (r + 53)"
        "r = e + 1 \<or> 2 powi (r + 52) \<le> \<bar>x\<bar>"
      unfolding r_def by blast+
    have "2 powi (r + 52) \<le> \<bar>x\<bar>"
    proof (cases "r = e + 1")
      case True
      with False show ?thesis by (simp add: add.commute add.left_commute)
    next
      case False
      with ih(4) show ?thesis by blast
    qed
    with ih False show ?thesis unfolding binade.simps r_def [symmetric] by auto
  qed
qed

lemma float_exponent_facts:
  "- 1074 \<le> float_exponent x" "float_exponent x \<le> 971"
  "float_exponent x = 971 \<or> \<bar>x\<bar> < 2 powi (float_exponent x + 53)"
  "float_exponent x = - 1074 \<or> 2 powi (float_exponent x + 52) \<le> \<bar>x\<bar>"
  using binade_facts [of "- 1074" 2045 x] unfolding float_exponent_def by auto

lemma int_apart:
  fixes k m :: int
  assumes "k \<noteq> m"
  shows "1 \<le> \<bar>(of_int k :: rat) - of_int m\<bar>"
proof -
  from assms have "1 \<le> \<bar>k - m\<bar>" by linarith
  then have "(of_int 1 :: rat) \<le> of_int \<bar>k - m\<bar>" unfolding of_int_le_iff .
  then show ?thesis by simp
qed

lemma round_half_even_nearest:
  "\<bar>of_int (round_half_even t) - t\<bar> \<le> \<bar>of_int k - t\<bar>"
proof (cases "k = round_half_even t")
  case True
  then show ?thesis by simp
next
  case False
  from int_apart [OF this] round_half_even_close [of t]
  show ?thesis by linarith
qed

lemma round_half_even_ge:
  assumes "of_int a \<le> x"
  shows "a \<le> round_half_even x"
proof (rule ccontr)
  assume "\<not> a \<le> round_half_even x"
  then have "round_half_even x \<le> a - 1" by simp
  then have "(of_int (round_half_even x) :: rat) \<le> of_int (a - 1)" unfolding of_int_le_iff .
  with round_half_even_close [of x] assms show False by simp
qed

lemma round_half_even_le:
  assumes "x \<le> of_int b"
  shows "round_half_even x \<le> b"
proof (rule ccontr)
  assume "\<not> round_half_even x \<le> b"
  then have "b + 1 \<le> round_half_even x" by simp
  then have "(of_int (b + 1) :: rat) \<le> of_int (round_half_even x)" unfolding of_int_le_iff .
  with round_half_even_close [of x] assms show False by simp
qed

lemma round_half_even_mono_bounds:
  assumes "0 < x" "x \<le> of_int n"
  shows "0 \<le> round_half_even x" "round_half_even x \<le> n"
proof -
  have c: "\<bar>of_int (round_half_even x) - x\<bar> \<le> 1 / 2" by (rule round_half_even_close)
  with assms(1) have "(- 1 :: rat) < of_int (round_half_even x)" by linarith
  then have "(of_int (- 1) :: rat) < of_int (round_half_even x)" by simp
  then have "- 1 < round_half_even x" unfolding of_int_less_iff .
  then show "0 \<le> round_half_even x" by simp
  from c assms(2) have "(of_int (round_half_even x) :: rat) < of_int n + 1" by linarith
  then have "(of_int (round_half_even x) :: rat) < of_int (n + 1)" by simp
  then have "round_half_even x < n + 1" unfolding of_int_less_iff .
  then show "round_half_even x \<le> n" by simp
qed

lemma powi_split: "(2::rat) powi (a + b) = 2 powi a * 2 powi b"
  by (rule power_int_add) simp

lemma nearest_float_spec:
  assumes x: "0 \<le> x" "x < 2 powi 1023"
  shows "\<exists>r. nearest_float x = Finite r \<and> spec_nearest_float x r \<and> 0 \<le> r"
proof -
  define e where "e = float_exponent x"
  define s :: rat where "s = 2 powi e"
  define t where "t = x / s"
  define m where "m = round_half_even t"
  define r where "r = of_int m * s"
  have s: "0 < s" by (simp add: s_def)
  have xs: "x = t * s" using s by (simp add: t_def)
  have e: "- 1074 \<le> e" "e \<le> 971" unfolding e_def by (rule float_exponent_facts)+
  have lo: "e = - 1074 \<or> 2 powi (e + 52) \<le> x"
    using float_exponent_facts(4) [of x] x(1) unfolding e_def by simp
  have e970: "e \<le> 970"
  proof (rule ccontr)
    assume "\<not> e \<le> 970"
    with e lo have "e = 971" "2 powi (e + 52) \<le> x" by auto
    then have "(2::rat) powi 1023 \<le> x" by (simp del: power_int_numeral)
    with x(2) show False by linarith
  qed
  then have "e \<noteq> 971" by simp
  with float_exponent_facts(3) [of x] x(1) have hi: "x < 2 powi (e + 53)"
    unfolding e_def by simp
  have s53: "(2::rat) powi (e + 53) = s * 2 ^ 53" by (simp add: powi_split s_def)
  have s52: "(2::rat) powi (e + 52) = s * 2 ^ 52" by (simp add: powi_split s_def)
  have t0: "0 \<le> t" using x(1) s by (simp add: t_def)
  have t53: "t < 2 ^ 53" using hi s unfolding s53 t_def by (simp add: field_simps)
  have m0: "0 \<le> m" unfolding m_def using t0 by (intro round_half_even_ge) simp
  have m53: "m \<le> 2 ^ 53" unfolding m_def using t53 by (intro round_half_even_le) simp
  have r0: "0 \<le> r" unfolding r_def using m0 s by simp
  have "s \<le> 2 powi 970" unfolding s_def using e970 by (intro power_int_increasing) simp_all
  moreover have "(of_int m :: rat) \<le> of_int (2 ^ 53)" using m53 by (simp only: of_int_le_iff)
  ultimately have "r \<le> of_int (2 ^ 53) * 2 powi 970" unfolding r_def using s m0
    by (intro mult_mono) simp_all
  also have "\<dots> = 2 powi 53 * 2 powi 970" by (simp only: power_int_numeral of_int_power of_int_numeral)
  also have "\<dots> = 2 powi (53 + 970)" by (rule powi_split [symmetric])
  also have "\<dots> < (2::rat) powi 1024" by (intro power_int_strict_increasing) simp_all
  finally have r1024: "r < 2 powi 1024" .
  have n1: "\<not> 2 powi 1024 \<le> r" using r1024 by linarith
  have "(0::rat) < 2 powi 1024" by (rule zero_less_power_int) simp
  with r0 have n2: "\<not> r \<le> - (2 powi 1024)" by linarith
  have "nearest_float x =
      (if 2 powi 1024 \<le> r then PosInf else if r \<le> - (2 powi 1024) then NegInf else Finite r)"
    by (simp only: nearest_float_def Let_def e_def s_def t_def m_def r_def)
  with n1 n2 have val: "nearest_float x = Finite r" by (simp only: if_False)
  have fl: "is_float r"
  proof (cases "m = 2 ^ 53")
    case True
    have "(2::rat) powi (e + 1) = s * 2" using powi_split [of e 1] by (simp add: s_def)
    then have "r = of_int (2 ^ 52) * 2 powi (e + 1)" unfolding r_def True by simp
    moreover have "\<bar>(2::int) ^ 52\<bar> < 2 ^ 53" by simp
    moreover have "- 1074 \<le> e + 1" "e + 1 \<le> 971" using e e970 by simp_all
    ultimately show ?thesis unfolding is_float_def by blast
  next
    case False
    with m53 m0 have "\<bar>m\<bar> < 2 ^ 53" by simp
    moreover have "r = of_int m * 2 powi e" by (simp only: r_def s_def)
    ultimately show ?thesis unfolding is_float_def using e by blast
  qed
  have mult: "\<bar>r - x\<bar> \<le> \<bar>of_int k * s - x\<bar>" for k
  proof -
    have "\<bar>r - x\<bar> = s * \<bar>of_int m - t\<bar>" unfolding r_def xs using s
      by (simp add: abs_mult left_diff_distrib [symmetric])
    also have "\<dots> \<le> s * \<bar>of_int k - t\<bar>"
      unfolding m_def using s round_half_even_nearest [of t k] by simp
    also have "\<dots> = \<bar>of_int k * s - x\<bar>" unfolding xs using s
      by (simp add: abs_mult left_diff_distrib [symmetric])
    finally show ?thesis .
  qed
  have near: "\<bar>r - x\<bar> \<le> \<bar>y - x\<bar>" if "is_float y" for y
  proof -
    from that obtain m' e' where y: "\<bar>m'\<bar> < 2 ^ 53" "- 1074 \<le> e'" "y = of_int m' * 2 powi e'"
      unfolding is_float_def by blast
    show ?thesis
    proof (cases "e \<le> e'")
      case True
      have "(2::rat) powi e' = 2 powi (e' - e) * s"
        using powi_split [of "e' - e" e] by (simp add: s_def)
      also have "(2::rat) powi (e' - e) = of_int (2 ^ nat (e' - e))"
        using True by (simp add: power_int_nonneg_exp)
      finally have "y = of_int (m' * 2 ^ nat (e' - e)) * s" unfolding y(3) by simp
      then show ?thesis using mult [of "m' * 2 ^ nat (e' - e)"] by (simp only:)
    next
      case False
      then have e': "e' \<le> e - 1" by simp
      with y(2) have "e \<noteq> - 1074" by simp
      with lo have xl: "s * 2 ^ 52 \<le> x" unfolding s52 by simp
      have "(2::rat) powi e' \<le> 2 powi (e - 1)" using e' by (intro power_int_increasing) simp_all
      moreover have "(of_int \<bar>m'\<bar> :: rat) < of_int (2 ^ 53)"
        using y(1) by (simp only: of_int_less_iff)
      then have "\<bar>(of_int m' :: rat)\<bar> < 2 ^ 53" by simp
      ultimately have "\<bar>y\<bar> < 2 ^ 53 * 2 powi (e - 1)" unfolding y(3) abs_mult
        by (intro mult_less_le_imp_less) simp_all
      also have "(2::rat) ^ 53 * 2 powi (e - 1) = s * 2 ^ 52"
        using powi_split [of "e - 1" 1] by (simp add: s_def)
      finally have yl: "y < s * 2 ^ 52" by simp
      have "\<bar>r - x\<bar> \<le> \<bar>of_int (2 ^ 52) * s - x\<bar>" by (rule mult)
      also have "\<dots> = x - s * 2 ^ 52" using xl by (simp add: mult.commute)
      also have "\<dots> \<le> \<bar>y - x\<bar>" using yl xl by simp
      finally show ?thesis .
    qed
  qed
  from val fl near r0 show ?thesis unfolding spec_nearest_float_def by blast
qed

lemma powi_le_1023:
  assumes "x \<le> 2 powi 14"
  shows "(x::rat) < 2 powi 1023"
proof -
  have "(2::rat) powi 14 < 2 powi 1023" by (intro power_int_strict_increasing) simp_all
  with assms show ?thesis by linarith
qed

lemma is_float_of_int: "\<bar>n\<bar> < 2 ^ 53 \<Longrightarrow> is_float (of_int n)"
  unfolding is_float_def by (rule exI [of _ n], rule exI [of _ 0]) simp

lemma nearest_float_of_float:
  assumes "is_float x" "0 \<le> x" "x < 2 powi 1023"
  shows "nearest_float x = Finite x"
proof -
  from nearest_float_spec [OF assms(2,3)] obtain r where
    r: "nearest_float x = Finite r" "spec_nearest_float x r" by blast
  from r(2) assms(1) have "\<bar>r - x\<bar> \<le> \<bar>x - x\<bar>" unfolding spec_nearest_float_def by blast
  then have "r = x" by simp
  with r(1) show ?thesis by simp
qed

lemma nearest_float_ej:
  "nearest_float 0 = Finite 0" "nearest_float 10 = Finite 10" "nearest_float 30 = Finite 30"
  "nearest_float 10000 = Finite 10000"
proof -
  have f: "is_float 0" "is_float 10" "is_float 30" "is_float 10000"
    using is_float_of_int [of 0] is_float_of_int [of 10] is_float_of_int [of 30]
      is_float_of_int [of 10000]
    by simp_all
  have b: "(0::rat) < 2 powi 1023" "(10::rat) < 2 powi 1023" "(30::rat) < 2 powi 1023"
      "(10000::rat) < 2 powi 1023"
    by (rule powi_le_1023, simp)+
  show "nearest_float 0 = Finite 0" by (rule nearest_float_of_float [OF f(1) _ b(1)]) simp
  show "nearest_float 10 = Finite 10" by (rule nearest_float_of_float [OF f(2) _ b(2)]) simp
  show "nearest_float 30 = Finite 30" by (rule nearest_float_of_float [OF f(3) _ b(3)]) simp
  show "nearest_float 10000 = Finite 10000" by (rule nearest_float_of_float [OF f(4) _ b(4)]) simp
qed

lemma nearest_float_rango:
  assumes "0 \<le> d" "d \<le> 10000"
  shows "\<exists>r. nearest_float d = Finite r \<and> spec_nearest_float d r \<and> 0 \<le> r \<and> r \<le> 10000"
proof -
  have "d < 2 powi 1023" using assms(2) by (intro powi_le_1023) simp
  from nearest_float_spec [OF assms(1) this] obtain r where
    r: "nearest_float d = Finite r" "spec_nearest_float d r" "0 \<le> r" by blast
  have "is_float 10000" using is_float_of_int [of 10000] by simp
  with r(2) have "\<bar>r - d\<bar> \<le> \<bar>10000 - d\<bar>" unfolding spec_nearest_float_def by blast
  with assms(2) have "r \<le> 10000" by linarith
  with r show ?thesis by blast
qed

lemma float_exponent_eqI:
  assumes "- 1074 \<le> e" "e \<le> 970" "e = - 1074 \<or> 2 powi (e + 52) \<le> \<bar>x\<bar>" "\<bar>x\<bar> < 2 powi (e + 53)"
  shows "float_exponent x = e"
proof (rule ccontr)
  assume ne: "float_exponent x \<noteq> e"
  define e0 where "e0 = float_exponent x"
  note f = float_exponent_facts [of x, folded e0_def]
  show False
  proof (cases "e0 < e")
    case True
    with assms(1,2) f(1) have "e \<noteq> - 1074" "e0 \<noteq> 971" by simp_all
    with assms(3) f(3) have "2 powi (e + 52) \<le> \<bar>x\<bar>" "\<bar>x\<bar> < 2 powi (e0 + 53)" by simp_all
    moreover have "(2::rat) powi (e0 + 53) \<le> 2 powi (e + 52)"
      using True by (intro power_int_increasing) simp_all
    ultimately show False by linarith
  next
    case False
    with ne have "e < e0" by (simp add: e0_def)
    with assms(1) have "e0 \<noteq> - 1074" by simp
    with f(4) have "2 powi (e0 + 52) \<le> \<bar>x\<bar>" by simp
    moreover have "(2::rat) powi (e + 53) \<le> 2 powi (e0 + 52)"
      using \<open>e < e0\<close> by (intro power_int_increasing) simp_all
    ultimately show False using assms(4) by linarith
  qed
qed


lemma nearest_float_eqI:
  assumes e: "- 1074 \<le> e" "e \<le> 970" "e = - 1074 \<or> 2 powi (e + 52) \<le> \<bar>x\<bar>" "\<bar>x\<bar> < 2 powi (e + 53)"
    and x: "0 \<le> x"
    and m: "round_half_even (x / 2 powi e) = m"
    and r: "r = of_int m * 2 powi e"
  shows "nearest_float x = Finite r"
proof -
  have fe: "float_exponent x = e" using e by (rule float_exponent_eqI)
  have d: "nearest_float x =
      (if 2 powi 1024 \<le> r then PosInf else if r \<le> - (2 powi 1024) then NegInf else Finite r)"
    by (simp only: nearest_float_def Let_def fe m r)
  have "(2::rat) powi (e + 53) \<le> 2 powi 1023" using e(2) by (intro power_int_increasing) simp_all
  with e(4) x have "x < 2 powi 1023" by linarith
  from nearest_float_spec [OF x this] obtain r' where "nearest_float x = Finite r'" by blast
  with d show ?thesis
    by (cases "2 powi 1024 \<le> r"; cases "r \<le> - (2 powi 1024)") (simp_all del: power_int_numeral)
qed

lemma rhe_ej: "round_half_even (179932878862286848 / 25) = 7197315154491474"
  by code_simp

lemma nearest_float_2557:
  "nearest_float (2557 / 100) = Finite (3598657577245737 / 140737488355328)"
  by (rule nearest_float_eqI [where e = "- 48" and m = 7197315154491474]) (simp_all add: rhe_ej)

lemma round_ej:
  "py_round (Finite (3598235364780671 / 140737488355328)) 2
     = Finite (3598657577245737 / 140737488355328)"
proof -
  have h: "round_half_even (3598235364780671 / 140737488355328 * 10 ^ 2) = 2557" by code_simp
  have d: "(of_int 2557 :: rat) / 10 ^ 2 = 2557 / 100" by simp
  show ?thesis unfolding py_round.simps h d by (rule nearest_float_2557)
qed

lemma is_float_ej: "is_float (3598235364780671 / 140737488355328)"
  unfolding is_float_def
  by (rule exI [of _ 7196470729561342], rule exI [of _ "- 48"]) simp

section \<open>Price\<close>

text \<open>
  C1. For every price \<open>v\<close> with \<open>0 < v \<le> 10000\<close> the price validator and the price field
  of \<open>Producto\<close> accept, and the stored price is \<open>v\<close> rounded to two decimal places by
  \<open>round\<close>: the float nearest to the decimal \<open>d\<close> of two places nearest to \<open>v\<close>.  A
  product whose other fields are valid is then accepted with that price.  For every
  \<open>v \<le> 0\<close> and every \<open>v > 10000\<close>, the infinities included, the validator, the field and
  the product are rejected with \<open>OutOfRange\<close>; so is NaN by the field and the product.
\<close>

theorem precio_rango_redondeo:
  "(float_lt (Finite 0) v \<and> float_le v (Finite 10000) \<longrightarrow>
      (\<exists>q d r. v = Finite q \<and> spec_rounded_2dp q d \<and> spec_nearest_float d r
         \<and> py_round v 2 = Finite r
         \<and> validar_precio v = Inr (Finite r) \<and> Producto_precio v = Inr (Finite r)
         \<and> (\<forall>n' cs' st'. Producto_nombre U n = Inr n' \<and> Producto_categorias U cs = Inr cs'
                \<and> Producto_stock st = Inr st' \<longrightarrow>
              Producto_validate U i n v cs st ts =
                Inr \<lparr> p_id = i, p_nombre = n', p_precio = Finite r, p_categorias = cs',
                      p_stock = st', p_fecha_creacion = ts \<rparr>)))
   \<and> (float_le v (Finite 0) \<or> float_lt (Finite 10000) v \<longrightarrow>
        validar_precio v = Inl OutOfRange \<and> Producto_precio v = Inl OutOfRange
        \<and> (\<exists>es. Producto_validate U i n v cs st ts = Inl es \<and> OutOfRange \<in> set es))
   \<and> (v = NaN \<longrightarrow>
        Producto_precio v = Inl OutOfRange
        \<and> (\<exists>es. Producto_validate U i n v cs st ts = Inl es \<and> OutOfRange \<in> set es))"
proof (intro conjI impI)
  assume a: "float_lt (Finite 0) v \<and> float_le v (Finite 10000)"
  then obtain q where v: "v = Finite q" and q: "0 < q" "q \<le> 10000"
    by (cases v) simp_all
  define d :: rat where "d = of_int (round_half_even (q * 100)) / 100"
  have 1: "spec_rounded_2dp q d" unfolding d_def by (rule py_round_2_spec)
  have "0 < q * 100" "q * 100 \<le> of_int 1000000" using q by simp_all
  from round_half_even_mono_bounds [OF this]
  have "0 \<le> d" "d \<le> 10000" by (simp_all add: d_def)
  from nearest_float_rango [OF this] obtain r where
    r: "nearest_float d = Finite r" "spec_nearest_float d r" by blast
  have 2: "py_round v 2 = Finite r" using r(1) by (simp add: v d_def)
  have 3: "validar_precio v = Inr (Finite r)" using q 2 by (simp add: v validar_precio_Finite)
  have 4: "Producto_precio v = Inr (Finite r)" using q 2 by (simp add: v Producto_precio_Finite)
  have 5: "\<forall>n' cs' st'. Producto_nombre U n = Inr n' \<and> Producto_categorias U cs = Inr cs'
                \<and> Producto_stock st = Inr st' \<longrightarrow>
              Producto_validate U i n v cs st ts =
                Inr \<lparr> p_id = i, p_nombre = n', p_precio = Finite r, p_categorias = cs',
                      p_stock = st', p_fecha_creacion = ts \<rparr>"
    using 4 by (simp add: Producto_validate_Inr_iff)
  from v 1 r(2) 2 3 4 5
  show "\<exists>q d r. v = Finite q \<and> spec_rounded_2dp q d \<and> spec_nearest_float d r
         \<and> py_round v 2 = Finite r
         \<and> validar_precio v = Inr (Finite r) \<and> Producto_precio v = Inr (Finite r)
         \<and> (\<forall>n' cs' st'. Producto_nombre U n = Inr n' \<and> Producto_categorias U cs = Inr cs'
                \<and> Producto_stock st = Inr st' \<longrightarrow>
              Producto_validate U i n v cs st ts =
                Inr \<lparr> p_id = i, p_nombre = n', p_precio = Finite r, p_categorias = cs',
                      p_stock = st', p_fecha_creacion = ts \<rparr>)"
    by blast
next
  assume a: "float_le v (Finite 0) \<or> float_lt (Finite 10000) v"
  then show 1: "validar_precio v = Inl OutOfRange"
    by (cases v) (auto simp: validar_precio_def float_gt_def)
  from a show 2: "Producto_precio v = Inl OutOfRange"
    by (cases v) (auto simp: Producto_precio_Finite Producto_precio_not_finite)
  then show "\<exists>es. Producto_validate U i n v cs st ts = Inl es \<and> OutOfRange \<in> set es"
    by (simp add: Producto_validate_Inl_iff errors_of_def)
next
  assume "v = NaN"
  then show 2: "Producto_precio v = Inl OutOfRange" by (simp add: Producto_precio_not_finite)
  then show "\<exists>es. Producto_validate U i n v cs st ts = Inl es \<and> OutOfRange \<in> set es"
    by (simp add: Producto_validate_Inl_iff errors_of_def)
qed

theorem precio_rango_redondeo_witness:
  "is_float (3598235364780671 / 140737488355328)
   \<and> validar_precio (Finite (3598235364780671 / 140737488355328))
       = Inr (Finite (3598657577245737 / 140737488355328))
   \<and> Producto_validate ucd_fragment None (cp ''Manzana Roja'')
        (Finite (3598235364780671 / 140737488355328)) [frutas] 100 None =
       Inr \<lparr> p_id = None, p_nombre = cp ''Manzana Roja'',
             p_precio = Finite (3598657577245737 / 140737488355328),
             p_categorias = [frutas], p_stock = 100, p_fecha_creacion = None \<rparr>
   \<and> Producto_precio (Finite (- 10)) = Inl OutOfRange
   \<and> Producto_precio (Finite 15000) = Inl OutOfRange
   \<and> Producto_precio PosInf = Inl OutOfRange
   \<and> Producto_precio NegInf = Inl OutOfRange
   \<and> Producto_precio NaN = Inl OutOfRange"
proof -
  note t = precio_rango_redondeo [where U = ucd_fragment and n = "cp ''Manzana Roja''"
      and cs = "[frutas]" and st = 100 and i = None and ts = None]
  have h: "float_lt (Finite 0) (Finite (3598235364780671 / 140737488355328))
      \<and> float_le (Finite (3598235364780671 / 140737488355328)) (Finite 10000)"
    by simp
  from t [of "Finite (3598235364780671 / 140737488355328)"] h
  obtain r where r: "py_round (Finite (3598235364780671 / 140737488355328)) 2 = Finite r"
      "validar_precio (Finite (3598235364780671 / 140737488355328)) = Inr (Finite r)"
      "\<forall>n' cs' st'. Producto_nombre ucd_fragment (cp ''Manzana Roja'') = Inr n'
          \<and> Producto_categorias ucd_fragment [frutas] = Inr cs' \<and> Producto_stock 100 = Inr st' \<longrightarrow>
         Producto_validate ucd_fragment None (cp ''Manzana Roja'')
             (Finite (3598235364780671 / 140737488355328)) [frutas] 100 None =
           Inr \<lparr> p_id = None, p_nombre = n', p_precio = Finite r, p_categorias = cs',
                 p_stock = st', p_fecha_creacion = None \<rparr>"
    by blast
  from r(1) have e: "r = 3598657577245737 / 140737488355328" unfolding round_ej by simp
  have a: "validar_precio (Finite (3598235364780671 / 140737488355328))
       = Inr (Finite (3598657577245737 / 140737488355328))"
    using r(2) unfolding e .
  have f: "Producto_nombre ucd_fragment (cp ''Manzana Roja'') = Inr (cp ''Manzana Roja'')
      \<and> Producto_categorias ucd_fragment [frutas] = Inr [frutas] \<and> Producto_stock 100 = Inr 100"
    by (simp add: frutas_def model_eval str_eval)
  from r(3) f
  have p: "Producto_validate ucd_fragment None (cp ''Manzana Roja'')
        (Finite (3598235364780671 / 140737488355328)) [frutas] 100 None =
       Inr \<lparr> p_id = None, p_nombre = cp ''Manzana Roja'',
             p_precio = Finite (3598657577245737 / 140737488355328),
             p_categorias = [frutas], p_stock = 100, p_fecha_creacion = None \<rparr>"
    unfolding e by blast
  have "float_le (Finite (- 10)) (Finite 0) \<or> float_lt (Finite 10000) (Finite (- 10))" by simp
  with t [of "Finite (- 10)"] have b: "Producto_precio (Finite (- 10)) = Inl OutOfRange" by blast
  have "float_le (Finite 15000) (Finite 0) \<or> float_lt (Finite 10000) (Finite 15000)" by simp
  with t [of "Finite 15000"] have c: "Producto_precio (Finite 15000) = Inl OutOfRange" by blast
  have "float_le PosInf (Finite 0) \<or> float_lt (Finite 10000) PosInf" by simp
  with t [of PosInf] have d: "Producto_precio PosInf = Inl OutOfRange" by blast
  have "float_le NegInf (Finite 0) \<or> float_lt (Finite 10000) NegInf" by simp
  with t [of NegInf] have g: "Producto_precio NegInf = Inl OutOfRange" by blast
  from t [of NaN] have n: "Producto_precio NaN = Inl OutOfRange" by blast
  from is_float_ej a p b c d g n show ?thesis by blast
qed

text \<open>
  C2. Every stored product is to have a price strictly above 0 and at most 10000 and a
  stock from 0 to 10000.  The lower bound of the price fails in the code: a request
  with the price \<open>1 / 256\<close> passes the check \<open>0 < price\<close>, and the rounding that
  follows the check stores the price \<open>0\<close>.
\<close>

theorem precio_cero:
  "map (\<lambda>(k, p). (k, p_precio p, p_stock p)) (serve ucd_fragment [] [Post (cp ''id1'') 0 manzana])
     = [(cp ''id1'', Finite 0, 100)]"
  by (simp add: store_eval model_eval manzana_def str_eval floor_ej nearest_float_ej)

section \<open>Bounds of stored products\<close>

text \<open>
  What does hold after any sequence of requests: every stored price is a finite number
  from 0 to 10000, both included, every stored stock is from 0 to 10000, no key
  occurs twice in the store, and every product carries the key it is stored under as
  its identifier.
\<close>

lemma Producto_precio_rango:
  assumes "Producto_precio v = Inr r"
  shows "\<exists>q. r = Finite q \<and> 0 \<le> q \<and> q \<le> 10000"
proof (cases v)
  case (Finite x)
  with assms have x: "0 < x" "x \<le> 10000" and r: "r = py_round (Finite x) 2"
    by (auto simp: Producto_precio_Finite split: if_splits)
  from x have "0 < x * 100" "x * 100 \<le> of_int 1000000" by simp_all
  from round_half_even_mono_bounds [OF this]
  have b: "0 \<le> round_half_even (x * 100)" "round_half_even (x * 100) \<le> 1000000" .
  define d :: rat where "d = of_int (round_half_even (x * 100)) / 100"
  have "0 \<le> d" "d \<le> 10000" using b by (simp_all add: d_def)
  from nearest_float_rango [OF this] obtain q where
    "nearest_float d = Finite q" "0 \<le> q" "q \<le> 10000" by blast
  moreover have "r = nearest_float d" by (simp add: r d_def)
  ultimately show ?thesis by simp
qed (use assms in \<open>simp_all add: Producto_precio_not_finite\<close>)

lemma Producto_stock_rango: "Producto_stock v = Inr s \<Longrightarrow> 0 \<le> s \<and> s \<le> 10000"
  by (auto simp: Producto_stock_def conint_ge_le_def and_then_def validar_stock_def split: if_splits)

lemma Producto_validate_rangos:
  assumes "Producto_validate U i n pr cs st ts = Inr p"
  shows "en_rango p"
proof -
  from assms obtain pr' st' where "Producto_precio pr = Inr pr'" "Producto_stock st = Inr st'"
      "p_precio p = pr'" "p_stock p = st'"
    by (auto simp: Producto_validate_Inr_iff)
  with Producto_precio_rango [of pr pr'] Producto_stock_rango [of st st']
  show ?thesis by (auto simp: en_rango_def)
qed

lemma update_rangos:
  "list_all (\<lambda>(k, p). Q k p) db \<Longrightarrow> Q k' q \<Longrightarrow> list_all (\<lambda>(k, p). Q k p) (AList.update k' q db)"
  by (induction db) auto

lemma delete_rangos:
  "list_all (\<lambda>(k, p). Q k p) db \<Longrightarrow> list_all (\<lambda>(k, p). Q k p) (AList.delete k' db)"
  by (induction db) auto

lemma handle_rangos:
  assumes "list_all (\<lambda>(k, p). en_rango p) db"
  shows "list_all (\<lambda>(k, p). en_rango p) (handle U db r)"
proof (cases r)
  case (Post k now body)
  with assms show ?thesis
    by (auto simp: post_productos_def crear_producto_def split: sum.splits
        intro!: update_rangos dest: Producto_validate_rangos)
next
  case (Put k body)
  with assms show ?thesis
    by (auto simp: put_productos_def actualizar_producto_def split: sum.splits option.splits
        intro!: update_rangos dest: Producto_validate_rangos)
next
  case (Delete k)
  with assms show ?thesis
    by (auto simp: eliminar_producto_def intro!: delete_rangos)
qed

lemma serve_rangos:
  "list_all (\<lambda>(k, p). en_rango p) db \<Longrightarrow> list_all (\<lambda>(k, p). en_rango p) (serve U db rs)"
  unfolding serve_def
  by (induction rs arbitrary: db) (simp_all add: handle_rangos)

lemma handle_claves_distintas:
  assumes "distinct (map fst db)"
  shows "distinct (map fst (handle U db r))"
proof (cases r)
  case (Post k now body)
  with assms show ?thesis
    by (auto simp: post_productos_def crear_producto_def split: sum.splits intro: distinct_update)
next
  case (Put k body)
  with assms show ?thesis
    by (auto simp: put_productos_def actualizar_producto_def split: sum.splits option.splits
        intro: distinct_update)
next
  case (Delete k)
  with assms show ?thesis
    by (auto simp: eliminar_producto_def intro: distinct_delete)
qed

lemma serve_claves_distintas:
  "distinct (map fst db) \<Longrightarrow> distinct (map fst (serve U db rs))"
  unfolding serve_def
  by (induction rs arbitrary: db) (simp_all add: handle_claves_distintas)

lemma Producto_validate_id:
  "Producto_validate U i n pr cs st ts = Inr p \<Longrightarrow> p_id p = i \<and> p_fecha_creacion p = ts"
  by (auto simp: Producto_validate_Inr_iff)

lemma handle_ids:
  assumes "list_all (\<lambda>(k, p). p_id p = Some k) db"
  shows "list_all (\<lambda>(k, p). p_id p = Some k) (handle U db r)"
proof (cases r)
  case (Post k now body)
  with assms show ?thesis
    by (auto simp: post_productos_def crear_producto_def split: sum.splits
        intro!: update_rangos dest: Producto_validate_id)
next
  case (Put k body)
  with assms show ?thesis
    by (auto simp: put_productos_def actualizar_producto_def split: sum.splits option.splits
        intro!: update_rangos dest: Producto_validate_id)
next
  case (Delete k)
  with assms show ?thesis
    by (auto simp: eliminar_producto_def intro!: delete_rangos)
qed

lemma serve_ids:
  "list_all (\<lambda>(k, p). p_id p = Some k) db \<Longrightarrow> list_all (\<lambda>(k, p). p_id p = Some k) (serve U db rs)"
  unfolding serve_def
  by (induction rs arbitrary: db) (simp_all add: handle_ids)

section \<open>Names and descriptions\<close>

text \<open>
  C4, as amended.  The name of a product fails with \<open>TooLong\<close> exactly when the name as
  given, before trimming, has more than 100 code points; it fails with \<open>EmptyField\<close>
  exactly when it has at most 100 code points and its trimmed form is empty; in every
  other case the result is the trimmed name in title case.  The name of a category
  behaves the same way with the limit 50.
\<close>

theorem nombre_casos:
  "Producto_nombre U v =
     (if 100 < length v then Inl TooLong
      else if py_strip v = [] then Inl EmptyField
      else Inr (py_title U (py_strip v)))
   \<and> Categoria_nombre U v =
     (if 50 < length v then Inl TooLong
      else if py_strip v = [] then Inl EmptyField
      else Inr (py_title U (py_strip v)))"
  by (simp only: Producto_nombre_conv Categoria_nombre_conv)

theorem nombre_casos_witness:
  "Producto_nombre ucd_fragment (cp ''   manzana roja   '') = Inr (cp ''Manzana Roja'')
   \<and> Categoria_nombre ucd_fragment (cp ''   manzana roja   '') = Inr (cp ''Manzana Roja'')"
proof -
  have l: "length (cp ''   manzana roja   '') = 18" by (simp add: cp_def)
  have s: "py_strip (cp ''   manzana roja   '') \<noteq> []" unfolding strip_ej by (simp add: cp_def)
  from nombre_casos [of ucd_fragment "cp ''   manzana roja   ''"] l s
  show ?thesis by (simp add: title_ej)
qed

text \<open>
  C4, as stated, fails on a name of 101 spaces: its trimmed form is empty, and the
  error is \<open>TooLong\<close>, not \<open>EmptyField\<close>.
\<close>

theorem nombre_en_blanco_largo:
  "py_strip (replicate 101 32) = []
   \<and> Producto_nombre ucd_fragment (replicate 101 32) = Inl TooLong
   \<and> Producto_nombre ucd_fragment (replicate 101 32) \<noteq> Inl EmptyField"
  by (simp add: py_strip_replicate_space Producto_nombre_def constr_length_def and_then_def)

text \<open>
  C5, as amended.  An accepted category keeps its description exactly as given, white
  space at the ends included, and an absent description stays absent.
\<close>

theorem descripcion_sin_cambio:
  "Categoria_validate U raw = Inr c \<Longrightarrow> c_descripcion c = c_descripcion raw"
  by (auto simp: Categoria_validate_Inr_iff dest: Categoria_descripcion_Inr)

theorem descripcion_sin_cambio_witness:
  "Categoria_validate ucd_fragment frutas_raw =
     Inr \<lparr> c_nombre = cp ''Frutas'', c_descripcion = Some (cp ''  Productos frescos  '') \<rparr>
   \<and> c_descripcion \<lparr> c_nombre = cp ''Frutas'', c_descripcion = Some (cp ''  Productos frescos  '') \<rparr>
       = c_descripcion frutas_raw"
  using descripcion_sin_cambio [OF frutas_ej] frutas_ej by simp

text \<open>
  C5, as stated, fails on a description with white space at both ends: the category is
  accepted and the description it holds is not the trimmed one.
\<close>

theorem descripcion_no_recortada:
  "Categoria_validate ucd_fragment frutas_raw =
     Inr \<lparr> c_nombre = cp ''Frutas'', c_descripcion = Some (cp ''  Productos frescos  '') \<rparr>
   \<and> py_strip (cp ''  Productos frescos  '') \<noteq> cp ''  Productos frescos  ''"
  by (simp add: frutas_raw_def model_eval str_eval)

section \<open>Category lists\<close>












section \<open>The store\<close>

lemmas sample_eval = frutas_def frutas_secas_def manzana_roja_def nuez_def db_uno_def db_dos_def
  manzana_verde_def sin_nombre_def

lemma obtener_producto_conv:
  "obtener_producto db k = (case map_of db k of None \<Rightarrow> Inl [NotFound] | Some p \<Rightarrow> Inr p)"
  by (simp add: obtener_producto_def dict_contains_def split: option.splits)

lemma Producto_validate_fields:
  assumes "Producto_nombre U n = Inr n'" "Producto_precio pr = Inr pr'"
    "Producto_categorias U cs = Inr cs'" "Producto_stock st = Inr st'"
  shows "Producto_validate U i n pr cs st ts =
           Inr \<lparr> p_id = i, p_nombre = n', p_precio = pr', p_categorias = cs',
                 p_stock = st', p_fecha_creacion = ts \<rparr>"
  using assms by (simp add: Producto_validate_Inr_iff)

lemma Producto_validate_Inl_indep:
  "Producto_validate U i n pr cs st ts = Inl es \<Longrightarrow> Producto_validate U i' n pr cs st ts' = Inl es"
  unfolding Producto_validate_Inl_iff by blast

text \<open>
  C6. An update of an absent identifier fails with \<open>NotFound\<close> and leaves the store as
  it was.  An update of a present identifier whose replacement fields are valid answers
  with, and stores under the same identifier, the product made of the validated
  replacement fields, the identifier and the creation time of the product stored
  before; every other entry and the order of the keys stay as they were.
\<close>

theorem actualizar_producto_efecto:
  "(map_of db producto_id = None \<longrightarrow>
      actualizar_producto U db producto_id body = (db, Inl [NotFound]))
   \<and> (map_of db producto_id = Some almacenado
        \<and> Producto_nombre U (pc_nombre body) = Inr n'
        \<and> Producto_precio (pc_precio body) = Inr pr'
        \<and> Producto_categorias U (pc_categorias body) = Inr cs'
        \<and> Producto_stock (pc_stock body) = Inr st' \<longrightarrow>
       (let nuevo = \<lparr> p_id = Some producto_id, p_nombre = n', p_precio = pr', p_categorias = cs',
                       p_stock = st', p_fecha_creacion = p_fecha_creacion almacenado \<rparr>;
            db' = fst (actualizar_producto U db producto_id body)
        in snd (actualizar_producto U db producto_id body) = Inr nuevo
           \<and> obtener_producto db' producto_id = Inr nuevo
           \<and> (\<forall>k. k \<noteq> producto_id \<longrightarrow> obtener_producto db' k = obtener_producto db k)
           \<and> map fst db' = map fst db))"
proof (intro conjI impI)
  assume "map_of db producto_id = None"
  then show "actualizar_producto U db producto_id body = (db, Inl [NotFound])"
    by (simp add: actualizar_producto_def)
next
  assume a: "map_of db producto_id = Some almacenado
        \<and> Producto_nombre U (pc_nombre body) = Inr n'
        \<and> Producto_precio (pc_precio body) = Inr pr'
        \<and> Producto_categorias U (pc_categorias body) = Inr cs'
        \<and> Producto_stock (pc_stock body) = Inr st'"
  define nuevo where "nuevo = \<lparr> p_id = Some producto_id, p_nombre = n', p_precio = pr',
     p_categorias = cs', p_stock = st', p_fecha_creacion = p_fecha_creacion almacenado \<rparr>"
  from a have v: "Producto_validate U (Some producto_id) (pc_nombre body) (pc_precio body)
      (pc_categorias body) (pc_stock body) (p_fecha_creacion almacenado) = Inr nuevo"
    unfolding nuevo_def by (intro Producto_validate_fields) simp_all
  with a have r: "actualizar_producto U db producto_id body = (AList.update producto_id nuevo db, Inr nuevo)"
    by (simp add: actualizar_producto_def)
  from a have "producto_id \<in> fst ` set db" by (auto dest: map_of_SomeD intro: rev_image_eqI)
  then have keys: "map fst (AList.update producto_id nuevo db) = map fst db"
    by (simp add: update_keys)
  show "let nuevo = \<lparr> p_id = Some producto_id, p_nombre = n', p_precio = pr', p_categorias = cs',
                       p_stock = st', p_fecha_creacion = p_fecha_creacion almacenado \<rparr>;
            db' = fst (actualizar_producto U db producto_id body)
        in snd (actualizar_producto U db producto_id body) = Inr nuevo
           \<and> obtener_producto db' producto_id = Inr nuevo
           \<and> (\<forall>k. k \<noteq> producto_id \<longrightarrow> obtener_producto db' k = obtener_producto db k)
           \<and> map fst db' = map fst db"
    unfolding Let_def nuevo_def[symmetric] r
    by (simp add: obtener_producto_conv update_conv' keys)
qed

lemma verde_fields:
  "Producto_nombre ucd_fragment (pc_nombre manzana_verde) = Inr (cp ''Manzana Verde'')"
  "Producto_precio (pc_precio manzana_verde) = Inr (Finite 30)"
  "Producto_categorias ucd_fragment (pc_categorias manzana_verde) = Inr [frutas]"
  "Producto_stock (pc_stock manzana_verde) = Inr 50"
  by (simp_all add: sample_eval model_eval str_eval nearest_float_ej)

theorem actualizar_producto_efecto_witness:
  "actualizar_producto ucd_fragment db_uno (cp ''id2'') manzana_verde = (db_uno, Inl [NotFound])
   \<and> snd (actualizar_producto ucd_fragment db_dos (cp ''id1'') manzana_verde) =
       Inr \<lparr> p_id = Some (cp ''id1''), p_nombre = cp ''Manzana Verde'', p_precio = Finite 30,
             p_categorias = [frutas], p_stock = 50, p_fecha_creacion = Some 7 \<rparr>
   \<and> obtener_producto (fst (actualizar_producto ucd_fragment db_dos (cp ''id1'') manzana_verde))
        (cp ''id1'') =
       Inr \<lparr> p_id = Some (cp ''id1''), p_nombre = cp ''Manzana Verde'', p_precio = Finite 30,
             p_categorias = [frutas], p_stock = 50, p_fecha_creacion = Some 7 \<rparr>
   \<and> obtener_producto (fst (actualizar_producto ucd_fragment db_dos (cp ''id1'') manzana_verde))
        (cp ''id2'') = Inr nuez
   \<and> map fst (fst (actualizar_producto ucd_fragment db_dos (cp ''id1'') manzana_verde))
        = [cp ''id1'', cp ''id2'']"
proof -
  have m1: "map_of db_uno (cp ''id2'') = None" by (simp add: db_uno_def cp_def)
  have m2: "map_of db_dos (cp ''id1'') = Some manzana_roja" by (simp add: db_dos_def)
  have ts: "p_fecha_creacion manzana_roja = Some 7" by (simp add: manzana_roja_def)
  have k: "cp ''id2'' \<noteq> cp ''id1''" by (simp add: cp_def)
  have o: "obtener_producto db_dos (cp ''id2'') = Inr nuez"
    by (simp add: obtener_producto_def dict_contains_def db_dos_def cp_def)
  have ks: "map fst db_dos = [cp ''id1'', cp ''id2'']" by (simp add: db_dos_def)
  from actualizar_producto_efecto [where db = db_uno and producto_id = "cp ''id2''"
      and U = ucd_fragment and body = manzana_verde] m1
  have a: "actualizar_producto ucd_fragment db_uno (cp ''id2'') manzana_verde = (db_uno, Inl [NotFound])"
    by blast
  from actualizar_producto_efecto [where db = db_dos and producto_id = "cp ''id1''"
      and almacenado = manzana_roja and U = ucd_fragment and body = manzana_verde
      and n' = "cp ''Manzana Verde''" and pr' = "Finite 30" and cs' = "[frutas]" and st' = 50]
    m2 verde_fields
  have b: "snd (actualizar_producto ucd_fragment db_dos (cp ''id1'') manzana_verde) =
       Inr \<lparr> p_id = Some (cp ''id1''), p_nombre = cp ''Manzana Verde'', p_precio = Finite 30,
             p_categorias = [frutas], p_stock = 50, p_fecha_creacion = Some 7 \<rparr>
     \<and> obtener_producto (fst (actualizar_producto ucd_fragment db_dos (cp ''id1'') manzana_verde))
        (cp ''id1'') =
       Inr \<lparr> p_id = Some (cp ''id1''), p_nombre = cp ''Manzana Verde'', p_precio = Finite 30,
             p_categorias = [frutas], p_stock = 50, p_fecha_creacion = Some 7 \<rparr>
     \<and> (\<forall>k. k \<noteq> cp ''id1'' \<longrightarrow>
           obtener_producto (fst (actualizar_producto ucd_fragment db_dos (cp ''id1'') manzana_verde)) k
             = obtener_producto db_dos k)
     \<and> map fst (fst (actualizar_producto ucd_fragment db_dos (cp ''id1'') manzana_verde))
          = map fst db_dos"
    unfolding Let_def ts by blast
  from b k o have c: "obtener_producto
      (fst (actualizar_producto ucd_fragment db_dos (cp ''id1'') manzana_verde)) (cp ''id2'') = Inr nuez"
    by metis
  from a b c ks show ?thesis by metis
qed

text \<open>
  C10. When the replacement fields of an update of a present identifier fail
  validation, the handler raises the validation errors, the store is left as it was
  and the product stored before is still the one returned for that identifier.
\<close>

theorem actualizar_producto_atomico:
  assumes "map_of db producto_id = Some almacenado"
    and "Producto_validate U i (pc_nombre body) (pc_precio body) (pc_categorias body)
           (pc_stock body) ts = Inl es"
  shows "actualizar_producto U db producto_id body = (db, Inl es)
         \<and> obtener_producto (fst (actualizar_producto U db producto_id body)) producto_id
             = Inr almacenado"
proof -
  from assms(2) have "Producto_validate U (Some producto_id) (pc_nombre body) (pc_precio body)
      (pc_categorias body) (pc_stock body) (p_fecha_creacion almacenado) = Inl es"
    by (rule Producto_validate_Inl_indep)
  with assms(1) have "actualizar_producto U db producto_id body = (db, Inl es)"
    by (simp add: actualizar_producto_def)
  with assms(1) show ?thesis by (simp add: obtener_producto_conv)
qed

lemma sin_nombre_invalido:
  "Producto_validate ucd_fragment None (pc_nombre sin_nombre) (pc_precio sin_nombre)
     (pc_categorias sin_nombre) (pc_stock sin_nombre) None = Inl [EmptyField]"
  by (simp add: sample_eval model_eval str_eval nearest_float_ej)

theorem actualizar_producto_atomico_witness:
  "actualizar_producto ucd_fragment db_uno (cp ''id1'') sin_nombre = (db_uno, Inl [EmptyField])
   \<and> obtener_producto (fst (actualizar_producto ucd_fragment db_uno (cp ''id1'') sin_nombre))
        (cp ''id1'') = Inr manzana_roja"
proof -
  have m: "map_of db_uno (cp ''id1'') = Some manzana_roja" by (simp add: db_uno_def)
  from actualizar_producto_atomico [OF m sin_nombre_invalido] show ?thesis .
qed

lemma handle_absent:
  assumes "map_of db producto_id = None" "\<not> crea producto_id r"
  shows "map_of (handle U db r) producto_id = None"
proof (cases r)
  case (Post k now body)
  with assms have "k \<noteq> producto_id" by (simp add: crea_def)
  with assms(1) Post show ?thesis
    by (auto simp: post_productos_def crear_producto_def update_conv' split: sum.splits)
next
  case (Put k body)
  with assms(1) show ?thesis
    by (cases "k = producto_id")
       (auto simp: put_productos_def actualizar_producto_def update_conv' split: sum.splits option.splits)
next
  case (Delete k)
  with assms(1) show ?thesis
    by (auto simp: eliminar_producto_def delete_conv')
qed

lemma serve_absent:
  "map_of db producto_id = None \<Longrightarrow> \<forall>r\<in>set rs. \<not> crea producto_id r \<Longrightarrow>
     map_of (serve U db rs) producto_id = None"
  unfolding serve_def
  by (induction rs arbitrary: db) (simp_all add: handle_absent)

text \<open>
  C7. Deleting an absent identifier fails with \<open>NotFound\<close>.  Deleting a present one
  succeeds, and from then on, after any sequence of requests in which no POST draws
  that identifier again, reading, updating and deleting it all fail with \<open>NotFound\<close>.
\<close>

theorem eliminar_producto_efecto:
  "(map_of db producto_id = None \<longrightarrow> eliminar_producto db producto_id = (db, Inl [NotFound]))
   \<and> (map_of db producto_id \<noteq> None \<and> (\<forall>r\<in>set rs. \<not> crea producto_id r) \<longrightarrow>
       (let db' = serve U (fst (eliminar_producto db producto_id)) rs
        in snd (eliminar_producto db producto_id) = Inr ()
           \<and> obtener_producto (fst (eliminar_producto db producto_id)) producto_id = Inl [NotFound]
           \<and> obtener_producto db' producto_id = Inl [NotFound]
           \<and> actualizar_producto U db' producto_id body = (db', Inl [NotFound])
           \<and> eliminar_producto db' producto_id = (db', Inl [NotFound])))"
proof (intro conjI impI)
  assume "map_of db producto_id = None"
  then show "eliminar_producto db producto_id = (db, Inl [NotFound])"
    by (simp add: eliminar_producto_def dict_contains_def)
next
  assume a: "map_of db producto_id \<noteq> None \<and> (\<forall>r\<in>set rs. \<not> crea producto_id r)"
  then have e: "eliminar_producto db producto_id = (AList.delete producto_id db, Inr ())"
    by (simp add: eliminar_producto_def dict_contains_def)
  have n0: "map_of (AList.delete producto_id db) producto_id = None"
    by (simp add: delete_conv')
  with a have n: "map_of (serve U (AList.delete producto_id db) rs) producto_id = None"
    by (intro serve_absent) simp_all
  show "let db' = serve U (fst (eliminar_producto db producto_id)) rs
        in snd (eliminar_producto db producto_id) = Inr ()
           \<and> obtener_producto (fst (eliminar_producto db producto_id)) producto_id = Inl [NotFound]
           \<and> obtener_producto db' producto_id = Inl [NotFound]
           \<and> actualizar_producto U db' producto_id body = (db', Inl [NotFound])
           \<and> eliminar_producto db' producto_id = (db', Inl [NotFound])"
    unfolding Let_def e using n n0
    by (simp add: obtener_producto_conv actualizar_producto_def eliminar_producto_def dict_contains_def)
qed

theorem eliminar_producto_efecto_witness:
  "eliminar_producto db_uno (cp ''id2'') = (db_uno, Inl [NotFound])
   \<and> snd (eliminar_producto db_dos (cp ''id1'')) = Inr ()
   \<and> obtener_producto
        (serve ucd_fragment (fst (eliminar_producto db_dos (cp ''id1'')))
           [Put (cp ''id1'') manzana_verde, Post (cp ''id3'') 11 manzana_verde, Delete (cp ''id1'')])
        (cp ''id1'') = Inl [NotFound]"
proof -
  have m1: "map_of db_uno (cp ''id2'') = None" by (simp add: db_uno_def cp_def)
  have m2: "map_of db_dos (cp ''id1'') \<noteq> None" by (simp add: db_dos_def)
  have rs: "\<forall>r\<in>set [Put (cp ''id1'') manzana_verde, Post (cp ''id3'') 11 manzana_verde,
     Delete (cp ''id1'')]. \<not> crea (cp ''id1'') r"
    by (simp add: crea_def cp_def)
  from eliminar_producto_efecto [where db = db_uno and producto_id = "cp ''id2''" and rs = "[]"
      and U = ucd_fragment and body = manzana_verde] m1
  have a: "eliminar_producto db_uno (cp ''id2'') = (db_uno, Inl [NotFound])" by blast
  from eliminar_producto_efecto [where db = db_dos and producto_id = "cp ''id1''"
      and rs = "[Put (cp ''id1'') manzana_verde, Post (cp ''id3'') 11 manzana_verde, Delete (cp ''id1'')]"
      and U = ucd_fragment and body = manzana_verde] m2 rs
  have b: "snd (eliminar_producto db_dos (cp ''id1'')) = Inr ()
   \<and> obtener_producto
        (serve ucd_fragment (fst (eliminar_producto db_dos (cp ''id1'')))
           [Put (cp ''id1'') manzana_verde, Post (cp ''id3'') 11 manzana_verde, Delete (cp ''id1'')])
        (cp ''id1'') = Inl [NotFound]"
    unfolding Let_def by blast
  from a b show ?thesis by blast
qed

lemma alguna_categoria_iff:
  "alguna_categoria U q cs \<longleftrightarrow> (\<exists>c\<in>set cs. py_lower U (c_nombre c) = py_lower U q)"
  by (induction cs) auto

lemma filtrar_eq:
  "filtrar U q ps acc = acc @ filter (\<lambda>p. alguna_categoria U q (p_categorias p)) ps"
  by (induction ps arbitrary: acc) auto

text \<open>
  C8. For every query name and every store, the filter returns, in the order of the
  store, exactly the stored products with at least one category whose name in lower
  case equals the query name in lower case.
\<close>

theorem por_categoria_exacto:
  "obtener_productos_por_categoria U db nombre_categoria =
     filter (\<lambda>p. \<exists>c\<in>set (p_categorias p). py_lower U (c_nombre c) = py_lower U nombre_categoria)
       (obtener_productos db)"
  by (simp add: obtener_productos_por_categoria_def obtener_productos_def filtrar_eq alguna_categoria_iff)

lemma por_categoria_ej:
  "filter (\<lambda>p. \<exists>c\<in>set (p_categorias p). py_lower ucd_fragment (c_nombre c) = py_lower ucd_fragment (cp ''FRUTAS''))
     (obtener_productos db_dos) = [manzana_roja]"
  by (simp add: obtener_productos_def dict_values_def sample_eval str_eval)

theorem por_categoria_exacto_witness:
  "obtener_productos_por_categoria ucd_fragment db_dos (cp ''FRUTAS'') = [manzana_roja]"
  using por_categoria_exacto [where U = ucd_fragment and db = db_dos
      and nombre_categoria = "cp ''FRUTAS''"]
  unfolding por_categoria_ej .

section \<open>Normalization twice\<close>

lemma ascii_exactD:
  assumes "ascii_exact U" "c < 128"
  shows "is_cased U c = (ascii_upper c \<or> ascii_lower c)"
    and "to_lower_full U c = [ascii_tolower c]"
    and "to_title_full U c = [ascii_toupper c]"
  using assms by (simp_all add: ascii_exact_def list_all_iff)

lemma ascii_exact_fragment: "ascii_exact ucd_fragment"
  by (auto simp: ascii_exact_def list_all_iff ucd_fragment_def)

lemma ascii_case_facts:
  "ascii_tolower (ascii_tolower c) = ascii_tolower c"
  "ascii_toupper (ascii_toupper c) = ascii_toupper c"
  "(ascii_upper (ascii_tolower c) \<or> ascii_lower (ascii_tolower c)) = (ascii_upper c \<or> ascii_lower c)"
  "(ascii_upper (ascii_toupper c) \<or> ascii_lower (ascii_toupper c)) = (ascii_upper c \<or> ascii_lower c)"
  "py_isspace (ascii_tolower c) = py_isspace c"
  "py_isspace (ascii_toupper c) = py_isspace c"
  by (auto simp: ascii_tolower_def ascii_toupper_def ascii_upper_def ascii_lower_def py_isspace_def)

lemma ascii_case_bound:
  "c < 128 \<Longrightarrow> ascii_tolower c < 128" "c < 128 \<Longrightarrow> ascii_toupper c < 128"
  by (auto simp: ascii_tolower_def ascii_toupper_def ascii_upper_def ascii_lower_def)


lemma trimmed_strip_id: "trimmed t \<Longrightarrow> py_strip t = t"
proof (cases "t = []")
  case True
  then show ?thesis by simp
next
  case False
  assume "trimmed t"
  with False have h: "\<not> py_isspace (hd t)" and l: "\<not> py_isspace (last t)"
    by (simp_all add: trimmed_def)
  from h have 1: "dropWhile py_isspace t = t" by (simp add: dropWhile_eq_self_iff)
  from l have 2: "dropWhile py_isspace (rev t) = rev t"
    by (simp add: dropWhile_eq_self_iff hd_rev)
  show ?thesis by (simp add: py_strip_def 1 2)
qed

lemma trimmed_py_strip: "trimmed (py_strip s)"
proof (cases "py_strip s = []")
  case True
  then show ?thesis by (simp add: trimmed_def)
next
  case False
  define u where "u = dropWhile py_isspace s"
  define w where "w = dropWhile py_isspace (rev u)"
  have s: "py_strip s = rev w" by (simp add: py_strip_def u_def w_def)
  with False have w: "w \<noteq> []" by simp
  then have u: "u \<noteq> []" by (auto simp: w_def)
  have hw: "\<not> py_isspace (hd w)" using w unfolding w_def by (rule hd_dropWhile)
  have "rev u = takeWhile py_isspace (rev u) @ w" by (simp add: w_def)
  then have "last (rev u) = last (takeWhile py_isspace (rev u) @ w)" by simp
  also have "\<dots> = last w" using w by simp
  finally have "last w = hd u" by (simp add: last_rev)
  moreover have "\<not> py_isspace (hd u)" using u unfolding u_def by (rule hd_dropWhile)
  ultimately have lw: "\<not> py_isspace (last w)" by simp
  show ?thesis unfolding s trimmed_def using hw lw by (simp add: hd_rev last_rev)
qed

lemma py_strip_idem: "py_strip (py_strip s) = py_strip s"
  by (rule trimmed_strip_id) (rule trimmed_py_strip)






lemma single_title_length [simp]: "length (single_title U b s) = length s"
  by (induction s arbitrary: b) simp_all




lemma stable_case_ascii:
  assumes U: "ascii_exact U" and c: "c < 128"
  shows "stable_case U c"
proof -
  define l where "l = ascii_tolower c"
  define t where "t = ascii_toupper c"
  have l: "l < 128" and t: "t < 128" using c by (simp_all add: l_def t_def ascii_case_bound)
  note fc = ascii_exactD [OF U c] and fl = ascii_exactD [OF U l] and ft = ascii_exactD [OF U t]
  have "to_lower_full U c = [l]" "to_title_full U c = [t]" by (simp_all add: fc l_def t_def)
  moreover have "c \<noteq> 931" "l \<noteq> 931" using c l by simp_all
  moreover have "to_lower_full U l = [l]" "to_title_full U t = [t]"
    using fl(2) ft(3) by (simp_all add: l_def t_def ascii_case_facts)
  moreover have "is_cased U l = is_cased U c" "is_cased U t = is_cased U c"
    using fl(1) ft(1) fc(1) by (simp_all add: l_def t_def ascii_case_facts)
  moreover have "py_isspace l = py_isspace c" "py_isspace t = py_isspace c"
    by (simp_all add: l_def t_def ascii_case_facts)
  ultimately show ?thesis unfolding stable_case_def by simp
qed





section \<open>Duplicates in the request body\<close>










lemma folds_case_ascii:
  assumes U: "ascii_exact U" and c: "c < 128"
  shows "folds_case U c"
proof -
  have t: "ascii_toupper c < 128" using c by (simp add: ascii_case_bound)
  have "ascii_toupper c \<noteq> 931" using t by simp
  moreover have "ascii_tolower (ascii_toupper c) = ascii_tolower c"
    by (auto simp: ascii_tolower_def ascii_toupper_def ascii_upper_def ascii_lower_def)
  ultimately show ?thesis
    unfolding folds_case_def using stable_case_ascii [OF U c] ascii_exactD [OF U c] ascii_exactD(2) [OF U t]
    by simp
qed

section \<open>Category lists: the claim\<close>







end
